theory Spec2Isabelle
  imports Main "HOL-Library.Sublist"
begin

section \<open>Exceptions, strings and the browser's answers\<close>

text \<open>
  The collector of \<^verbatim>\<open>src/src/stock_data_collector.py\<close> is a script of WebDriver calls,
  each able to raise. The model is a state-and-exception monad: a program takes the
  state and returns either an exception or a value, together with the state reached.
  What the browser answers to each call is not computed by the program; it is read
  from a \<open>world\<close>, so that every theorem below holds for every behaviour of the site.

  Texts are byte strings (UTF-8). \<open>strip\<close> removes the white space of the ASCII range,
  which is where Python's \<^verbatim>\<open>str.strip()\<close> and the byte model agree.
\<close>

datatype exn =
    TimeoutException
  | NoSuchElementException
  | WebDriverException
  | AttributeError
  | TypeError
  | KeyError
  | OSError
  | ValueError

type_synonym path = string
type_synonym url = string

definition is_space :: "char \<Rightarrow> bool" where
  "is_space c = (let n = (of_char c :: nat) in (9 \<le> n \<and> n \<le> 13) \<or> (28 \<le> n \<and> n \<le> 32))"

definition strip :: "string \<Rightarrow> string" where
  "strip t = rev (dropWhile is_space (rev (dropWhile is_space t)))"

definition remove_commas :: "string \<Rightarrow> string" where
  "remove_commas t = filter (\<lambda>c. c \<noteq> CHR '','') t"

fun join_space :: "string list \<Rightarrow> string" where
  "join_space [] = []"
| "join_space [t] = t"
| "join_space (t # ts) = t @ '' '' @ join_space ts"

text \<open>The two Korean literals of the source, as their UTF-8 bytes: the placeholder
  for missing information and the prefix of a source-attribution paragraph.\<close>

definition info_none :: string where
  "info_none = [CHR 0xEC, CHR 0xA0, CHR 0x95, CHR 0xEB, CHR 0xB3, CHR 0xB4, CHR 0x20,
                CHR 0xEC, CHR 0x97, CHR 0x86, CHR 0xEC, CHR 0x9D, CHR 0x8C]"

definition source_prefix :: string where
  "source_prefix = [CHR 0xEC, CHR 0xB6, CHR 0x9C, CHR 0xEC, CHR 0xB2, CHR 0x98]"

datatype By = CSS_SELECTOR | XPATH | CLASS_NAME | TAG_NAME | ID

type_synonym locator = "By \<times> string"

text \<open>A WebElement, as the answers it gives: its \<^verbatim>\<open>.text\<close>, its \<^verbatim>\<open>title\<close> attribute
  (\<open>None\<close> when the attribute is absent), the elements found below it for a locator,
  in document order, and what \<^verbatim>\<open>.screenshot(path)\<close> does (\<open>Inr (Some bytes)\<close>: the
  bytes written; \<open>Inr None\<close>: the call returned False and wrote nothing).\<close>

datatype element = Element
  (el_text: "exn + string")
  (el_title: "exn + string option")
  (el_find: "locator \<Rightarrow> exn + element list")
  (el_screenshot: "exn + string option")

datatype jsval = JNull | JBool bool | JNum int | JStr string

fun truthy :: "jsval \<Rightarrow> bool" where
  "truthy JNull = False"
| "truthy (JBool b) = b"
| "truthy (JNum n) = (n \<noteq> 0)"
| "truthy (JStr t) = (t \<noteq> [])"

text \<open>The scripts handed to \<^verbatim>\<open>execute_script\<close>, by what they do.\<close>

datatype script =
    ScrollToTop
  | IframeContentHeight
  | IframeResize jsval
  | BodyScrollHeight
  | ClickElement element
  | PointerClick string

text \<open>A page, as the answers of the driver while it shows that page.\<close>

record page =
  pg_title :: "exn + string"
  pg_wait :: "locator \<Rightarrow> exn option"
  pg_find :: "locator \<Rightarrow> exn + element list"
  pg_script :: "script \<Rightarrow> exn + jsval"
  pg_switch_frame :: "exn option"
  pg_switch_default :: "exn option"
  pg_cdp_metrics :: "exn + nat \<times> nat"
  pg_cdp_capture :: "exn + string option"
  pg_save_screenshot :: "exn + string option"
  pg_window_size :: "exn + nat \<times> nat"
  pg_set_window_size :: "nat \<times> jsval \<Rightarrow> exn option"

text \<open>The delay between requests as the YAML file gives it, unvalidated: a number of
  seconds (an integer here: of a number \<^verbatim>\<open>time.sleep\<close> only tests the sign) or a value
  that is not a number.\<close>

datatype delay = Seconds int | NotANumber

record config =
  stock_url :: string
  delay_between_requests :: delay
  screenshot_format :: string
  save_path :: path

text \<open>The dictionaries appended to \<^verbatim>\<open>news_data\<close> and \<^verbatim>\<open>investor_data\<close>, and the
  dataclass \<^verbatim>\<open>StockData\<close>.\<close>

record news_item =
  n_title :: string
  n_date :: string
  n_source :: string
  n_index :: nat

record flow_row =
  f_date :: string
  f_foreign_buy :: string
  f_foreign_sell :: string
  f_institution_buy :: string
  f_institution_sell :: string
  f_individual_volume :: string
  f_index :: nat

record StockData =
  stock_code :: string
  stock_name :: string
  current_price :: string
  price_change :: string
  change_rate :: string
  volume :: string
  market_cap :: string
  investment_opinion :: string
  news_data :: "news_item list"
  discussion_data :: "flow_row list"
  related_themes :: "string list"
  chart_screenshots :: "string \<rightharpoonup> path"
  financial_data :: "string \<rightharpoonup> string"
  technical_indicators :: "string \<rightharpoonup> string"
  collected_at :: string

text \<open>Everything outside the program: the clock, the file system's and the browser
  launcher's failures, the pages behind each URL, the chart page as it looks after an
  interval was selected, the base64 decoder and the JSON serialiser.\<close>

record world =
  strftime :: "string \<Rightarrow> nat \<Rightarrow> string"
  mkdir_result :: "path \<Rightarrow> exn option"
  makedirs_profile :: "exn option"
  chrome_with_options :: "exn option"
  chrome_default :: "exn option"
  implicitly_wait_result :: "exn option"
  quit_result :: "exn option"
  get_result :: "url \<Rightarrow> exn option"
  pages :: "url \<Rightarrow> page"
  chart_view :: "string \<Rightarrow> page"
  open_wb :: "path \<Rightarrow> exn option"
  open_w :: "path \<Rightarrow> exn option"
  b64decode :: "string \<Rightarrow> exn + string"
  json_dumps :: "StockData \<Rightarrow> string"

section \<open>The collector's state\<close>

datatype driver_status = NoDriver | Running | Terminated

text \<open>The calls whose order the claims speak about.\<close>

datatype call = Launch | Get url | Cdp path | SaveScreenshot path | Quit

text \<open>
  The attributes of a \<^verbatim>\<open>StockDataCollector\<close> (\<open>driver\<close>, \<open>current_stock_screenshot_dir\<close>;
  \<open>base_screenshot_dir\<close> is \<open>save_path (config s)\<close>), the attribute \<open>screenshot_dir\<close> that
  the class reads but never assigns (\<open>None\<close>: the attribute does not exist), the page
  the driver shows, the files written, the clock's position, the trace of calls, and
  the two dictionaries that the source fills step by step inside a \<^verbatim>\<open>try\<close>, so that a
  handler sees what was stored before the exception.
\<close>

record state =
  config :: config
  driver :: driver_status
  current_stock_screenshot_dir :: "path option"
  screenshot_dir :: "path option"
  current :: page
  fs :: "path \<rightharpoonup> string"
  tick :: nat
  calls :: "call list"
  basic_info :: "string \<rightharpoonup> string"
  investor_data :: "flow_row list"

type_synonym 'a prog = "state \<Rightarrow> (exn + 'a) \<times> state"

definition ret :: "'a \<Rightarrow> 'a prog" where
  "ret x s = (Inr x, s)"

definition throw :: "exn \<Rightarrow> 'a prog" where
  "throw e s = (Inl e, s)"

definition seq :: "'a prog \<Rightarrow> ('a \<Rightarrow> 'b prog) \<Rightarrow> 'b prog" where
  "seq m f s = (case m s of (Inl e, s') \<Rightarrow> (Inl e, s') | (Inr x, s') \<Rightarrow> f x s')"

text \<open>\<^verbatim>\<open>try: m except Exception as e: h e\<close>\<close>

definition try_except :: "'a prog \<Rightarrow> (exn \<Rightarrow> 'a prog) \<Rightarrow> 'a prog" where
  "try_except m h s = (case m s of (Inl e, s') \<Rightarrow> h e s' | (Inr x, s') \<Rightarrow> (Inr x, s'))"

text \<open>\<^verbatim>\<open>try: m except X: h\<close> for one exception class \<open>X\<close>; any other exception passes.\<close>

definition try_except_only :: "exn \<Rightarrow> 'a prog \<Rightarrow> 'a prog \<Rightarrow> 'a prog" where
  "try_except_only x m h s =
     (case m s of
        (Inl e, s') \<Rightarrow> if e = x then h s' else (Inl e, s')
      | (Inr v, s') \<Rightarrow> (Inr v, s'))"

definition answer :: "exn + 'a \<Rightarrow> 'a prog" where
  "answer r s = (r, s)"

definition attempt :: "exn option \<Rightarrow> unit prog" where
  "attempt r s = (case r of Some e \<Rightarrow> (Inl e, s) | None \<Rightarrow> (Inr (), s))"

definition record_call :: "call \<Rightarrow> unit prog" where
  "record_call c s = (Inr (), s\<lparr>calls := calls s @ [c]\<rparr>)"

definition now :: "world \<Rightarrow> string \<Rightarrow> string prog" where
  "now w fmt s = (Inr (strftime w fmt (tick s)), s\<lparr>tick := Suc (tick s)\<rparr>)"

subsection \<open>Driver calls\<close>

definition driver_get :: "world \<Rightarrow> url \<Rightarrow> unit prog" where
  "driver_get w u s =
     (let s1 = s\<lparr>calls := calls s @ [Get u]\<rparr> in
      case get_result w u of
        Some e \<Rightarrow> (Inl e, s1)
      | None \<Rightarrow> (Inr (), s1\<lparr>current := pages w u\<rparr>))"

definition find_elements :: "locator \<Rightarrow> element list prog" where
  "find_elements loc s = (pg_find (current s) loc, s)"

definition find_element :: "locator \<Rightarrow> element prog" where
  "find_element loc =
     seq (find_elements loc)
       (\<lambda>es. case es of [] \<Rightarrow> throw NoSuchElementException | e # _ \<Rightarrow> ret e)"

definition find_elements_in :: "element \<Rightarrow> locator \<Rightarrow> element list prog" where
  "find_elements_in el loc = answer (el_find el loc)"

definition find_element_in :: "element \<Rightarrow> locator \<Rightarrow> element prog" where
  "find_element_in el loc =
     seq (find_elements_in el loc)
       (\<lambda>es. case es of [] \<Rightarrow> throw NoSuchElementException | e # _ \<Rightarrow> ret e)"

definition text_of :: "element \<Rightarrow> string prog" where
  "text_of el = answer (el_text el)"

definition get_title_attribute :: "element \<Rightarrow> string option prog" where
  "get_title_attribute el = answer (el_title el)"

definition execute_script :: "script \<Rightarrow> jsval prog" where
  "execute_script js s = (pg_script (current s) js, s)"

definition driver_title :: "string prog" where
  "driver_title s = (pg_title (current s), s)"

definition wait_until_present :: "locator \<Rightarrow> unit prog" where
  "wait_until_present loc s = attempt (pg_wait (current s) loc) s"

section \<open>\<^verbatim>\<open>_get_basic_info\<close>\<close>

definition set_info :: "string \<Rightarrow> string \<Rightarrow> unit prog" where
  "set_info k v s = (Inr (), s\<lparr>basic_info := (basic_info s)(k \<mapsto> v)\<rparr>)"

fun description_loop :: "element list \<Rightarrow> string list \<Rightarrow> string list prog" where
  "description_loop [] company_description = ret company_description"
| "description_loop (elem # elems) company_description =
     seq (text_of elem) (\<lambda>t.
       let text = strip t in
       description_loop elems
         (if text \<noteq> [] \<and> \<not> prefix source_prefix text
          then company_description @ [text] else company_description))"

definition company_description_block :: "unit prog" where
  "company_description_block =
     try_except
       (seq (find_element (CSS_SELECTOR, ''.summary a'')) (\<lambda>summary_elem.
        seq (execute_script (ClickElement summary_elem)) (\<lambda>_.
        seq (find_elements (CSS_SELECTOR, ''.summary_info p'')) (\<lambda>company_desc_elements.
        seq (description_loop company_desc_elements []) (\<lambda>company_description.
        seq (set_info ''company_description'' (join_space company_description)) (\<lambda>_.
        seq (find_element (CSS_SELECTOR, ''.summary_lyr .btn_area_top a'')) (\<lambda>close_btn.
        seq (execute_script (ClickElement close_btn)) (\<lambda>_. ret ()))))))))
       (\<lambda>desc_error. set_info ''company_description'' info_none)"

definition name_from_title :: "unit prog" where
  "name_from_title =
     try_except
       (seq driver_title (\<lambda>t.
          if CHR '':'' \<in> set t
          then seq driver_title (\<lambda>t'.
                 set_info ''stock_name'' (strip (takeWhile (\<lambda>c. c \<noteq> CHR '':'') t')))
          else set_info ''stock_name'' info_none))
       (\<lambda>_. set_info ''stock_name'' info_none)"

definition get_basic_info :: "(string \<rightharpoonup> string) prog" where
  "get_basic_info =
     seq (\<lambda>s. (Inr (), s\<lparr>basic_info := Map.empty\<rparr>)) (\<lambda>_.
     seq (try_except
            (seq (find_element (CSS_SELECTOR, ''.wrap_company h2 a'')) (\<lambda>stock_name_elem.
             seq (text_of stock_name_elem) (\<lambda>t.
             seq (set_info ''stock_name'' (strip t)) (\<lambda>_.
             seq (find_element (CSS_SELECTOR, ''.wrap_company .description .code'')) (\<lambda>stock_code_elem.
             seq (text_of stock_code_elem) (\<lambda>t.
             seq (set_info ''stock_code'' (strip t)) (\<lambda>_.
             seq (find_element (CSS_SELECTOR, ''.today .no_today em'')) (\<lambda>current_price_elem.
             seq (text_of current_price_elem) (\<lambda>t.
             seq (set_info ''current_price'' (remove_commas (strip t))) (\<lambda>_.
             seq (find_elements (CSS_SELECTOR, ''.today .no_exday em'')) (\<lambda>price_change_elements.
             seq (if length price_change_elements \<ge> 2
                  then seq (text_of (price_change_elements ! 0)) (\<lambda>t0.
                       seq (text_of (price_change_elements ! 1)) (\<lambda>t1.
                       seq (set_info ''price_change'' (remove_commas (strip t0))) (\<lambda>_.
                       set_info ''change_rate'' (strip t1))))
                  else ret ()) (\<lambda>_.
             company_description_block))))))))))))
            (\<lambda>e. name_from_title)) (\<lambda>_.
     (\<lambda>s. (Inr (basic_info s), s))))"

section \<open>Folders, the driver's life cycle and screenshots\<close>

text \<open>\<^verbatim>\<open>Path(a) / b\<close>: an absolute right-hand side replaces the left-hand side.\<close>

definition join_path :: "path \<Rightarrow> string \<Rightarrow> path" where
  "join_path a b = (if b \<noteq> [] \<and> hd b = CHR ''/'' then b else a @ ''/'' @ b)"

definition parent :: "path \<Rightarrow> path" where
  "parent p =
     (let d = rev (drop 1 (dropWhile (\<lambda>c. c \<noteq> CHR ''/'') (rev p)))
      in if d = [] then ''.'' else d)"

definition get_config :: "config prog" where
  "get_config s = (Inr (config s), s)"

definition setup_stock_screenshot_folder :: "world \<Rightarrow> string \<Rightarrow> unit prog" where
  "setup_stock_screenshot_folder w code =
     seq (now w ''%y%m%d%H%M'') (\<lambda>timestamp.
     seq get_config (\<lambda>cfg.
       let folder_name = code @ ''_'' @ timestamp;
           dir = join_path (save_path cfg) folder_name in
       seq (\<lambda>s. (Inr (), s\<lparr>current_stock_screenshot_dir := Some dir\<rparr>)) (\<lambda>_.
       attempt (mkdir_result w dir))))"

definition launch :: "exn option \<Rightarrow> unit prog" where
  "launch r =
     seq (record_call Launch) (\<lambda>_.
     seq (attempt r) (\<lambda>_.
     (\<lambda>s. (Inr (), s\<lparr>driver := Running\<rparr>))))"

definition setup_driver :: "world \<Rightarrow> unit prog" where
  "setup_driver w =
     try_except
       (seq (attempt (makedirs_profile w)) (\<lambda>_.
        seq (try_except (launch (chrome_with_options w)) (\<lambda>e. launch (chrome_default w))) (\<lambda>_.
        attempt (implicitly_wait_result w))))
       (\<lambda>e. throw e)"

definition close_driver :: "world \<Rightarrow> unit prog" where
  "close_driver w s =
     (if driver s \<noteq> NoDriver
      then try_except
             (seq (record_call Quit) (\<lambda>_.
              seq (attempt (quit_result w)) (\<lambda>_.
              (\<lambda>s. (Inr (), s\<lparr>driver := Terminated\<rparr>)))))
             (\<lambda>e. ret ()) s
      else (Inr (), s))"

definition close_driver_if_needed :: "world \<Rightarrow> unit prog" where
  "close_driver_if_needed w = close_driver w"

definition write_file :: "path \<Rightarrow> string \<Rightarrow> unit prog" where
  "write_file p bytes s = (Inr (), s\<lparr>fs := (fs s)(p \<mapsto> bytes)\<rparr>)"

text \<open>\<^verbatim>\<open>with open(filepath, "wb") as fh: fh.write(b64decode(png['data']))\<close>: the file is
  created empty before the data is looked up and decoded.\<close>

definition take_full_page_screenshot_cdp :: "world \<Rightarrow> path \<Rightarrow> bool prog" where
  "take_full_page_screenshot_cdp w filepath =
     try_except
       (seq (record_call (Cdp filepath)) (\<lambda>_.
        seq (\<lambda>s. (pg_cdp_metrics (current s), s)) (\<lambda>page_rect.
        seq (\<lambda>s. (pg_cdp_capture (current s), s)) (\<lambda>base_64_png.
        seq (attempt (open_wb w filepath)) (\<lambda>_.
        seq (write_file filepath []) (\<lambda>_.
        seq (case base_64_png of None \<Rightarrow> throw KeyError | Some d \<Rightarrow> answer (b64decode w d)) (\<lambda>bytes.
        seq (write_file filepath bytes) (\<lambda>_.
        ret True))))))))
       (\<lambda>e. ret False)"

text \<open>\<^verbatim>\<open>driver.save_screenshot(path)\<close> returns False, and writes nothing, on an I/O error.\<close>

definition save_screenshot :: "path \<Rightarrow> bool prog" where
  "save_screenshot p =
     seq (record_call (SaveScreenshot p)) (\<lambda>_.
     (\<lambda>s. case pg_save_screenshot (current s) of
             Inl e \<Rightarrow> (Inl e, s)
           | Inr None \<Rightarrow> (Inr False, s)
           | Inr (Some png) \<Rightarrow> (Inr True, s\<lparr>fs := (fs s)(p \<mapsto> png)\<rparr>)))"

definition element_screenshot :: "element \<Rightarrow> path \<Rightarrow> bool prog" where
  "element_screenshot el p s =
     (case el_screenshot el of
        Inl e \<Rightarrow> (Inl e, s)
      | Inr None \<Rightarrow> (Inr False, s)
      | Inr (Some png) \<Rightarrow> (Inr True, s\<lparr>fs := (fs s)(p \<mapsto> png)\<rparr>))"

text \<open>\<^verbatim>\<open>self.current_stock_screenshot_dir / filename\<close> with the name built from the stock
  code, the kind of capture, a fresh time stamp and the configured format.\<close>

definition screenshot_path :: "world \<Rightarrow> string \<Rightarrow> string \<Rightarrow> path prog" where
  "screenshot_path w code kind =
     seq (now w ''%Y%m%d_%H%M%S'') (\<lambda>timestamp.
     seq get_config (\<lambda>cfg.
       let filename = code @ kind @ timestamp @ ''.'' @ screenshot_format cfg in
       (\<lambda>s. case current_stock_screenshot_dir s of
               None \<Rightarrow> (Inl TypeError, s)
             | Some dir \<Rightarrow> (Inr (join_path dir filename), s))))"

section \<open>\<^verbatim>\<open>_navigate_to_stock\<close>\<close>

definition get_stock_url :: "config \<Rightarrow> string \<Rightarrow> url" where
  "get_stock_url cfg code = stock_url cfg @ ''?code='' @ code"

definition selectors_to_try :: "locator list" where
  "selectors_to_try =
     [(CLASS_NAME, ''chart_area''), (ID, ''chart''), (CLASS_NAME, ''graph_wrap''),
      (CLASS_NAME, ''today''), (TAG_NAME, ''body'')]"

text \<open>The loop over the page-ready selectors: the value is \<^verbatim>\<open>loaded\<close>.\<close>

fun wait_for_any :: "locator list \<Rightarrow> bool prog" where
  "wait_for_any [] = ret False"
| "wait_for_any (l # ls) =
     try_except_only TimeoutException
       (seq (wait_until_present l) (\<lambda>_. ret True))
       (wait_for_any ls)"

text \<open>\<^verbatim>\<open>time.sleep(d)\<close>: a ValueError for a negative number, a TypeError for a value
  that is not a number.\<close>

definition sleep :: "delay \<Rightarrow> unit prog" where
  "sleep d =
     (case d of
        Seconds n \<Rightarrow> if n < 0 then throw ValueError else ret ()
      | NotANumber \<Rightarrow> throw TypeError)"

definition navigate_to_stock :: "world \<Rightarrow> string \<Rightarrow> bool prog" where
  "navigate_to_stock w code =
     try_except
       (seq get_config (\<lambda>cfg.
        seq (driver_get w (get_stock_url cfg code)) (\<lambda>_.
        seq (wait_for_any selectors_to_try) (\<lambda>loaded.
        seq (sleep (delay_between_requests cfg)) (\<lambda>_.
        ret True)))))
       (\<lambda>e. ret False)"

section \<open>\<^verbatim>\<open>_capture_company_analysis\<close>\<close>

definition coinfo_url :: "string \<Rightarrow> url" where
  "coinfo_url code = ''https://finance.naver.com/item/coinfo.naver?code='' @ code"

definition iframe_xpath :: string where
  "iframe_xpath = ''/html/body/div[3]/div[2]/div[2]/div[1]/div[3]/iframe''"

definition switch_to_frame :: "element \<Rightarrow> unit prog" where
  "switch_to_frame iframe s = attempt (pg_switch_frame (current s)) s"

definition switch_to_default_content :: "unit prog" where
  "switch_to_default_content s = attempt (pg_switch_default (current s)) s"

definition get_window_size :: "(nat \<times> nat) prog" where
  "get_window_size s = (pg_window_size (current s), s)"

definition set_window_size :: "nat \<Rightarrow> jsval \<Rightarrow> unit prog" where
  "set_window_size width height s = attempt (pg_set_window_size (current s) (width, height)) s"

definition iframe_capture :: "world \<Rightarrow> string \<Rightarrow> (string \<rightharpoonup> path) prog" where
  "iframe_capture w code =
     seq (find_element (XPATH, iframe_xpath)) (\<lambda>iframe.
     seq (switch_to_frame iframe) (\<lambda>_.
     seq (execute_script IframeContentHeight) (\<lambda>iframe_height.
     seq switch_to_default_content (\<lambda>_.
     seq (execute_script (IframeResize iframe_height)) (\<lambda>_.
     seq (screenshot_path w code ''_company_analysis_cdp_full_'') (\<lambda>filepath.
     seq (take_full_page_screenshot_cdp w filepath) (\<lambda>success.
     if success then ret [''cdp_screenshot'' \<mapsto> filepath]
     else seq (save_screenshot filepath) (\<lambda>_.
          ret [''fallback_screenshot'' \<mapsto> filepath]))))))))"

definition plain_page_capture :: "world \<Rightarrow> string \<Rightarrow> (string \<rightharpoonup> path) prog" where
  "plain_page_capture w code =
     seq (execute_script BodyScrollHeight) (\<lambda>total_height.
     seq get_window_size (\<lambda>original_size.
     seq (set_window_size 1920 total_height) (\<lambda>_.
     seq (screenshot_path w code ''_company_analysis_fallback_'') (\<lambda>filepath.
     seq (save_screenshot filepath) (\<lambda>_.
     seq (set_window_size (fst original_size) (JNum (int (snd original_size)))) (\<lambda>_.
     ret [''fallback_screenshot'' \<mapsto> filepath]))))))"

definition capture_company_analysis :: "world \<Rightarrow> string \<Rightarrow> (string \<rightharpoonup> path) prog" where
  "capture_company_analysis w code =
     try_except
       (seq (driver_get w (coinfo_url code)) (\<lambda>_.
        try_except (iframe_capture w code) (\<lambda>iframe_error. plain_page_capture w code)))
       (\<lambda>e. ret Map.empty)"

section \<open>\<^verbatim>\<open>_get_news_announcements\<close>\<close>

definition news_url :: "string \<Rightarrow> url" where
  "news_url code = ''https://finance.naver.com/item/news.naver?code='' @ code"

text \<open>The capture sequence shared by the news and the investor pages: the CDP
  capture first, the driver's own screenshot at the same path when it reports failure.\<close>

definition capture_full_page :: "world \<Rightarrow> string \<Rightarrow> string \<Rightarrow> unit prog" where
  "capture_full_page w code kind =
     seq (execute_script ScrollToTop) (\<lambda>_.
     seq (screenshot_path w code kind) (\<lambda>filepath.
     seq (take_full_page_screenshot_cdp w filepath) (\<lambda>success.
     if \<not> success then seq (save_screenshot filepath) (\<lambda>_. ret ()) else ret ())))"

definition news_title :: "element \<Rightarrow> string prog" where
  "news_title title_elem =
     seq (get_title_attribute title_elem) (\<lambda>attr.
       case attr of
         Some t \<Rightarrow> if t \<noteq> [] then ret t
                   else seq (text_of title_elem) (\<lambda>x. ret (strip x))
       | None \<Rightarrow> seq (text_of title_elem) (\<lambda>x. ret (strip x)))"

definition extract_news :: "nat \<Rightarrow> element \<Rightarrow> news_item prog" where
  "extract_news idx news_item =
     seq (find_element_in news_item (CSS_SELECTOR, ''a'')) (\<lambda>title_elem.
     seq (news_title title_elem) (\<lambda>title.
     seq (find_element_in news_item (CSS_SELECTOR, ''.date, .wdate'')) (\<lambda>date_elem.
     seq (text_of date_elem) (\<lambda>date.
     seq (find_element_in news_item (CSS_SELECTOR, ''.press, .info_policy'')) (\<lambda>source_elem.
     seq (text_of source_elem) (\<lambda>source.
     ret \<lparr>n_title = title, n_date = strip date, n_source = strip source,
          n_index = idx + 1\<rparr>))))))"

fun news_loop :: "(nat \<times> element) list \<Rightarrow> news_item list \<Rightarrow> news_item list prog" where
  "news_loop [] news = ret news"
| "news_loop ((idx, news_item) # rest) news =
     seq (try_except
            (seq (extract_news idx news_item) (\<lambda>item. ret (news @ [item])))
            (\<lambda>news_error. ret news))
       (\<lambda>news'. news_loop rest news')"

definition get_news_announcements :: "world \<Rightarrow> string \<Rightarrow> news_item list prog" where
  "get_news_announcements w code =
     try_except
       (seq (driver_get w (news_url code)) (\<lambda>_.
        seq (capture_full_page w code ''_news_cdp_full_'') (\<lambda>_.
        seq (find_elements (CSS_SELECTOR, ''.tb_cont, .newsList li'')) (\<lambda>news_items.
        news_loop (List.enumerate 0 (take 20 news_items)) []))))
       (\<lambda>e. ret [])"

section \<open>\<^verbatim>\<open>_get_investor_trends\<close>\<close>

definition frgn_url :: "string \<Rightarrow> url" where
  "frgn_url code = ''https://finance.naver.com/item/frgn.naver?code='' @ code"

definition append_row :: "flow_row \<Rightarrow> unit prog" where
  "append_row r s = (Inr (), s\<lparr>investor_data := investor_data s @ [r]\<rparr>)"

definition extract_row :: "nat \<Rightarrow> element list \<Rightarrow> flow_row prog" where
  "extract_row idx cells =
     seq (text_of (cells ! 0)) (\<lambda>c0.
     seq (text_of (cells ! 1)) (\<lambda>c1.
     seq (text_of (cells ! 2)) (\<lambda>c2.
     seq (text_of (cells ! 3)) (\<lambda>c3.
     seq (text_of (cells ! 4)) (\<lambda>c4.
     seq (text_of (cells ! 5)) (\<lambda>c5.
     ret \<lparr>f_date = strip c0, f_foreign_buy = strip c1, f_foreign_sell = strip c2,
          f_institution_buy = strip c3, f_institution_sell = strip c4,
          f_individual_volume = strip c5, f_index = idx + 1\<rparr>))))))"

text \<open>The loop over the table rows. It runs inside the \<^verbatim>\<open>try\<close> of the table block, so
  an exception ends it and leaves in \<open>investor_data\<close> the rows appended so far.\<close>

fun rows_loop :: "(nat \<times> element) list \<Rightarrow> unit prog" where
  "rows_loop [] = ret ()"
| "rows_loop ((idx, row) # rest) =
     seq (find_elements_in row (TAG_NAME, ''td'')) (\<lambda>cells.
     seq (if length cells \<ge> 6
          then seq (extract_row idx cells) (\<lambda>r. append_row r)
          else ret ()) (\<lambda>_.
     rows_loop rest))"

definition table_block :: "unit prog" where
  "table_block =
     try_except
       (seq (find_element (CSS_SELECTOR, ''.type2, .tb_cont'')) (\<lambda>table.
        seq (find_elements_in table (TAG_NAME, ''tr'')) (\<lambda>trs.
        rows_loop (List.enumerate 0 (take 10 (drop 1 trs))))))
       (\<lambda>table_error. ret ())"

definition get_investor_trends :: "world \<Rightarrow> string \<Rightarrow> flow_row list prog" where
  "get_investor_trends w code =
     seq (\<lambda>s. (Inr (), s\<lparr>investor_data := []\<rparr>)) (\<lambda>_.
     seq (try_except
            (seq (driver_get w (frgn_url code)) (\<lambda>_.
             seq (capture_full_page w code ''_investor_trends_cdp_full_'') (\<lambda>_.
             table_block)))
            (\<lambda>e. ret ())) (\<lambda>_.
     (\<lambda>s. (Inr (investor_data s), s))))"

section \<open>\<^verbatim>\<open>_capture_advanced_charts\<close>\<close>

definition fchart_url :: "string \<Rightarrow> url" where
  "fchart_url code = ''https://finance.naver.com/item/fchart.naver?code='' @ code"

definition indicator_menu_xpath :: string where
  \<open>indicator_menu_xpath =
     ''//*[@id="content"]/div[3]/cq-context/div[1]/div[1]/div/div[2]/cq-menu/span''\<close>

definition studies_xpath :: string where
  \<open>studies_xpath =
     ''//*[@id="content"]/div[3]/cq-context/div[1]/div[1]/div/div[2]/cq-menu/cq-menu-dropdown/cq-scroll/cq-studies/cq-studies-content/''\<close>

definition click_by_xpath :: "string \<Rightarrow> unit prog" where
  "click_by_xpath xp =
     seq (find_element (XPATH, xp)) (\<lambda>elem.
     seq (execute_script (ClickElement elem)) (\<lambda>_. ret ()))"

text \<open>The indicator menu, then MACD, RSI and Stochastic; a failure is logged only.\<close>

definition indicator_block :: "unit prog" where
  "indicator_block =
     try_except
       (seq (click_by_xpath indicator_menu_xpath) (\<lambda>_.
        seq (click_by_xpath (studies_xpath @ ''cq-item[9]/cq-label'')) (\<lambda>_.
        seq (click_by_xpath (studies_xpath @ ''cq-item[12]'')) (\<lambda>_.
        click_by_xpath (studies_xpath @ ''cq-item[15]'')))))
       (\<lambda>indicator_error. ret ())"

definition chart_types :: "(string \<times> string) list" where
  "chart_types = [(''month'', ''month''), (''week'', ''week''), (''day'', ''day'')]"

text \<open>After the pointer events the driver shows the chart of the interval selected.\<close>

definition show_interval :: "world \<Rightarrow> string \<Rightarrow> unit prog" where
  "show_interval w chart_type s = (Inr (), s\<lparr>current := chart_view w chart_type\<rparr>)"

text \<open>The chart region alone, or the whole page when the region cannot be captured.\<close>

definition capture_chart ::
  "world \<Rightarrow> string \<Rightarrow> string \<Rightarrow> (string \<rightharpoonup> path) \<Rightarrow> (string \<rightharpoonup> path) prog" where
  "capture_chart w code chart_type shots =
     try_except
       (seq (find_element (CSS_SELECTOR, ''cq-context, .chart_area, #chart'')) (\<lambda>chart_area.
        seq (screenshot_path w code (''_chart_'' @ chart_type @ ''_'')) (\<lambda>filepath.
        seq (element_screenshot chart_area filepath) (\<lambda>_.
        ret (shots(''chart_'' @ chart_type \<mapsto> filepath))))))
       (\<lambda>area_error.
        seq (screenshot_path w code (''_chart_'' @ chart_type @ ''_full_'')) (\<lambda>filepath.
        seq (save_screenshot filepath) (\<lambda>_.
        ret (shots(''chart_'' @ chart_type @ ''_full'' \<mapsto> filepath)))))"

fun chart_loop ::
  "world \<Rightarrow> string \<Rightarrow> (string \<times> string) list \<Rightarrow> (string \<rightharpoonup> path) \<Rightarrow> (string \<rightharpoonup> path) prog" where
  "chart_loop w code [] shots = ret shots"
| "chart_loop w code ((chart_type, css_class) # rest) shots =
     seq (try_except
            (seq (execute_script (PointerClick (''div.'' @ css_class @ '':not(.selected)''))) (\<lambda>result.
             if truthy result
             then seq (show_interval w chart_type) (\<lambda>_. capture_chart w code chart_type shots)
             else ret shots))
            (\<lambda>chart_error. ret shots))
       (\<lambda>shots'. chart_loop w code rest shots')"

definition hour_selector :: string where
  \<open>hour_selector = ''cq-item[interval="60"]''\<close>

definition hour_chart :: "world \<Rightarrow> string \<Rightarrow> (string \<rightharpoonup> path) \<Rightarrow> (string \<rightharpoonup> path) prog" where
  "hour_chart w code shots =
     try_except
       (seq (execute_script (PointerClick hour_selector)) (\<lambda>result.
        seq (if truthy result then show_interval w ''1hour'' else throw ValueError) (\<lambda>_.
        capture_chart w code ''1hour'' shots)))
       (\<lambda>hour_error. ret shots)"

definition capture_advanced_charts :: "world \<Rightarrow> string \<Rightarrow> (string \<rightharpoonup> path) prog" where
  "capture_advanced_charts w code =
     try_except
       (seq (driver_get w (fchart_url code)) (\<lambda>_.
        seq indicator_block (\<lambda>_.
        seq (chart_loop w code chart_types Map.empty) (\<lambda>shots.
        hour_chart w code shots))))
       (\<lambda>e. ret Map.empty)"

section \<open>\<^verbatim>\<open>_get_related_themes\<close>\<close>

text \<open>The loop over the theme links; an exception ends it, and the handler of the
  enclosing \<^verbatim>\<open>try\<close> returns the themes collected so far.\<close>

fun theme_loop :: "element list \<Rightarrow> string list \<Rightarrow> string list prog" where
  "theme_loop [] themes = ret themes"
| "theme_loop (theme_link # rest) themes =
     try_except
       (seq (text_of theme_link) (\<lambda>t.
          let theme_text = strip t in
          theme_loop rest
            (if theme_text \<noteq> [] \<and> theme_text \<notin> set themes
             then themes @ [theme_text] else themes)))
       (\<lambda>e. ret themes)"

definition get_related_themes :: "string list prog" where
  "get_related_themes =
     try_except
       (seq (find_element (CLASS_NAME, ''group_theme'')) (\<lambda>theme_section.
        seq (find_elements_in theme_section (TAG_NAME, ''a'')) (\<lambda>theme_links.
        theme_loop theme_links [])))
       (\<lambda>e. ret [])"

section \<open>\<^verbatim>\<open>collect_stock_data\<close>\<close>

definition dict_get :: "(string \<rightharpoonup> string) \<Rightarrow> string \<Rightarrow> string \<Rightarrow> string" where
  "dict_get d k dflt = (case d k of Some v \<Rightarrow> v | None \<Rightarrow> dflt)"

definition collect_stock_data :: "world \<Rightarrow> string \<Rightarrow> StockData option prog" where
  "collect_stock_data w code =
     try_except
       (seq (setup_stock_screenshot_folder w code) (\<lambda>_.
        seq (setup_driver w) (\<lambda>_.
        seq (navigate_to_stock w code) (\<lambda>ok.
        if \<not> ok then ret None
        else
        seq get_basic_info (\<lambda>info.
        seq (capture_company_analysis w code) (\<lambda>analysis_screenshots.
        seq (get_news_announcements w code) (\<lambda>news.
        seq (get_investor_trends w code) (\<lambda>investor_trends.
        seq (capture_advanced_charts w code) (\<lambda>advanced_charts.
        seq (now w ''isoformat'') (\<lambda>timestamp.
        ret (Some \<lparr>stock_code = code,
                   stock_name = dict_get info ''stock_name'' [],
                   current_price = dict_get info ''current_price'' [],
                   price_change = dict_get info ''price_change'' [],
                   change_rate = dict_get info ''change_rate'' [],
                   volume = dict_get info ''volume'' [],
                   market_cap = dict_get info ''market_cap'' [],
                   investment_opinion = dict_get info ''company_description'' [],
                   news_data = news,
                   discussion_data = investor_trends,
                   related_themes = [],
                   chart_screenshots = analysis_screenshots ++ advanced_charts,
                   financial_data = Map.empty,
                   technical_indicators = Map.empty,
                   collected_at = timestamp\<rparr>)))))))))))
       (\<lambda>e. seq (close_driver w) (\<lambda>_. ret None))"

section \<open>\<^verbatim>\<open>save_data_to_json\<close>\<close>

text \<open>\<^verbatim>\<open>self.screenshot_dir\<close>: an AttributeError when the attribute was never set.\<close>

definition get_screenshot_dir :: "path prog" where
  "get_screenshot_dir s =
     (case screenshot_dir s of None \<Rightarrow> (Inl AttributeError, s) | Some d \<Rightarrow> (Inr d, s))"

definition default_json_path :: "world \<Rightarrow> StockData \<Rightarrow> path prog" where
  "default_json_path w stock_data =
     seq (now w ''%Y%m%d_%H%M%S'') (\<lambda>timestamp.
       let filename = stock_code stock_data @ ''_'' @ timestamp @ ''.json'' in
       seq get_screenshot_dir (\<lambda>dir.
         let filepath = join_path (join_path (parent dir) ''data'') filename in
         seq (attempt (mkdir_result w (parent filepath))) (\<lambda>_. ret filepath)))"

definition save_data_to_json :: "world \<Rightarrow> StockData \<Rightarrow> path option \<Rightarrow> path prog" where
  "save_data_to_json w stock_data filepath =
     seq (case filepath of None \<Rightarrow> default_json_path w stock_data | Some p \<Rightarrow> ret p) (\<lambda>p.
     try_except
       (seq (attempt (open_w w p)) (\<lambda>_.
        seq (write_file p (json_dumps w stock_data)) (\<lambda>_.
        ret p)))
       (\<lambda>e. throw e))"

section \<open>\<^verbatim>\<open>__init__\<close>\<close>

text \<open>A fresh collector: no driver, no folder of the current stock, and no attribute
  \<open>screenshot_dir\<close>. The page shown and the files present are those of the machine;
  directories are not part of the state, so the \<^verbatim>\<open>mkdir\<close> of the base folder leaves no
  trace here.\<close>

definition new_collector :: "config \<Rightarrow> page \<Rightarrow> (path \<rightharpoonup> string) \<Rightarrow> state" where
  "new_collector cfg pg files =
     \<lparr>config = cfg, driver = NoDriver, current_stock_screenshot_dir = None,
      screenshot_dir = None, current = pg, fs = files, tick = 0, calls = [],
      basic_info = Map.empty, investor_data = []\<rparr>"

section \<open>Frames, totality and the steps of a collection run\<close>

text \<open>
  \<open>frame s s'\<close> relates a state to a later one in which the driver, the configuration
  and the folder attributes are the same and the trace has grown by calls other than
  \<^verbatim>\<open>quit\<close> and a browser launch; \<open>framed m\<close> says that \<open>m\<close> always ends in such a
  state, \<open>no_raise m\<close> that it always returns a value. \<open>reach_overview\<close> and
  \<open>after_overview\<close> are the two halves of \<^verbatim>\<open>collect_stock_data\<close>; the pages and worlds
  that follow are the examples at which the theorems are evaluated.
\<close>

definition frame :: "state \<Rightarrow> state \<Rightarrow> bool" where
  "frame s s' \<longleftrightarrow>
     (\<exists>t. calls s' = calls s @ t \<and> Quit \<notin> set t \<and> Launch \<notin> set t)
     \<and> driver s' = driver s \<and> config s' = config s
     \<and> screenshot_dir s' = screenshot_dir s
     \<and> current_stock_screenshot_dir s' = current_stock_screenshot_dir s"

definition framed :: "'a prog \<Rightarrow> bool" where
  "framed m \<longleftrightarrow> (\<forall>s. frame s (snd (m s)))"

definition no_raise :: "'a prog \<Rightarrow> bool" where
  "no_raise m \<longleftrightarrow> (\<forall>s. \<exists>v. fst (m s) = Inr v)"

definition reach_overview :: "world \<Rightarrow> string \<Rightarrow> bool prog" where
  "reach_overview w code =
     seq (setup_stock_screenshot_folder w code) (\<lambda>_.
     seq (setup_driver w) (\<lambda>_.
     navigate_to_stock w code))"

definition after_overview :: "world \<Rightarrow> string \<Rightarrow> StockData option prog" where
  "after_overview w code =
        seq get_basic_info (\<lambda>info.
        seq (capture_company_analysis w code) (\<lambda>analysis_screenshots.
        seq (get_news_announcements w code) (\<lambda>news.
        seq (get_investor_trends w code) (\<lambda>investor_trends.
        seq (capture_advanced_charts w code) (\<lambda>advanced_charts.
        seq (now w ''isoformat'') (\<lambda>timestamp.
        ret (Some \<lparr>stock_code = code,
                   stock_name = dict_get info ''stock_name'' [],
                   current_price = dict_get info ''current_price'' [],
                   price_change = dict_get info ''price_change'' [],
                   change_rate = dict_get info ''change_rate'' [],
                   volume = dict_get info ''volume'' [],
                   market_cap = dict_get info ''market_cap'' [],
                   investment_opinion = dict_get info ''company_description'' [],
                   news_data = news,
                   discussion_data = investor_trends,
                   related_themes = [],
                   chart_screenshots = analysis_screenshots ++ advanced_charts,
                   financial_data = Map.empty,
                   technical_indicators = Map.empty,
                   collected_at = timestamp\<rparr>)))))))"

definition text_element :: "string \<Rightarrow> element" where
  "text_element t = Element (Inr t) (Inr None) (\<lambda>_. Inr []) (Inr None)"

definition container :: "(locator \<Rightarrow> exn + element list) \<Rightarrow> element" where
  "container f = Element (Inr []) (Inr None) f (Inr None)"

definition blank_page :: page where
  "blank_page =
     \<lparr>pg_title = Inr [], pg_wait = (\<lambda>_. Some TimeoutException), pg_find = (\<lambda>_. Inr []),
      pg_script = (\<lambda>_. Inr JNull), pg_switch_frame = None, pg_switch_default = None,
      pg_cdp_metrics = Inl WebDriverException, pg_cdp_capture = Inl WebDriverException,
      pg_save_screenshot = Inl WebDriverException, pg_window_size = Inl WebDriverException,
      pg_set_window_size = (\<lambda>_. None)\<rparr>"

definition theme_section :: element where
  "theme_section = container (\<lambda>loc. if loc = (TAG_NAME, ''a'')
     then Inr [text_element ''AI'', text_element '' AI '', text_element ''Chips''] else Inr [])"

definition overview_page :: page where
  "overview_page =
     blank_page\<lparr>pg_title := Inr ''Samsung : Naver'',
       pg_wait := (\<lambda>_. None),
       pg_find := (\<lambda>loc.
         if loc = (CSS_SELECTOR, ''.wrap_company h2 a'') then Inr [text_element '' Samsung Electronics '']
         else if loc = (CSS_SELECTOR, ''.wrap_company .description .code'') then Inr [text_element ''005930'']
         else if loc = (CSS_SELECTOR, ''.today .no_today em'') then Inr [text_element ''70,000'']
         else if loc = (CSS_SELECTOR, ''.today .no_exday em'') then Inr [text_element ''1,000'', text_element ''1.45%'']
         else if loc = (CLASS_NAME, ''group_theme'') then Inr [theme_section]
         else Inr [])\<rparr>"

definition nameless_page :: page where
  "nameless_page =
     overview_page\<lparr>pg_find := (\<lambda>loc.
         if loc = (CSS_SELECTOR, ''.wrap_company h2 a'') then Inr []
         else pg_find overview_page loc)\<rparr>"

definition host_page :: page where
  "host_page = blank_page\<lparr>pg_script := (\<lambda>_. Inr (JNum 3000)),
     pg_window_size := Inr (1920, 1080), pg_save_screenshot := Inr (Some ''PNG'')\<rparr>"

definition headline :: "string \<Rightarrow> string option \<Rightarrow> element" where
  "headline t a = container (\<lambda>loc.
     if loc = (CSS_SELECTOR, ''a'') then Inr [Element (Inr t) (Inr a) (\<lambda>_. Inr []) (Inr None)]
     else if loc = (CSS_SELECTOR, ''.date, .wdate'') then Inr [text_element ''2025.01.02 '']
     else if loc = (CSS_SELECTOR, ''.press, .info_policy'') then Inr [text_element ''Daily'']
     else Inr [])"

definition news_page :: page where
  "news_page = host_page\<lparr>pg_find := (\<lambda>loc.
     if loc = (CSS_SELECTOR, ''.tb_cont, .newsList li'')
     then Inr [headline '' Headline '' (Some ''Full headline''), text_element ''advertisement'',
               headline '' Second '' None]
     else Inr [])\<rparr>"

definition table_row :: "string list \<Rightarrow> element" where
  "table_row ts = container (\<lambda>loc. if loc = (TAG_NAME, ''td'') then Inr (map text_element ts) else Inr [])"

definition flows_page :: page where
  "flows_page = host_page\<lparr>pg_find := (\<lambda>loc.
     if loc = (CSS_SELECTOR, ''.type2, .tb_cont'')
     then Inr [container (\<lambda>loc. if loc = (TAG_NAME, ''tr'')
                 then Inr [table_row [],
                           table_row [''2025.01.02'', ''10'', ''20'', ''30'', ''40'', ''50''],
                           table_row [''note'', ''-''],
                           table_row [''2025.01.01'', ''1'', ''2'', ''3'', ''4'', ''5'', ''6'']]
                 else Inr [])]
     else Inr [])\<rparr>"

definition demo_config :: config where
  "demo_config = \<lparr>stock_url = ''https://finance.naver.com/item/main.naver'',
     delay_between_requests = Seconds 2, screenshot_format = ''png'', save_path = ''screenshots''\<rparr>"

definition demo_world :: world where
  "demo_world =
     \<lparr>strftime = (\<lambda>fmt n. ''T''), mkdir_result = (\<lambda>_. None), makedirs_profile = None,
      chrome_with_options = None, chrome_default = None, implicitly_wait_result = None,
      quit_result = None, get_result = (\<lambda>_. None),
      pages = (\<lambda>u. if u = ''https://finance.naver.com/item/main.naver?code=005930'' then overview_page
                     else if u = ''https://finance.naver.com/item/coinfo.naver?code=005930'' then host_page
                     else if u = ''https://finance.naver.com/item/news.naver?code=005930'' then news_page
                     else if u = ''https://finance.naver.com/item/frgn.naver?code=005930'' then flows_page
                     else blank_page),
      chart_view = (\<lambda>_. blank_page), open_wb = (\<lambda>_. None), open_w = (\<lambda>_. None),
      b64decode = (\<lambda>d. Inr d), json_dumps = (\<lambda>_. ''{}'')\<rparr>"

definition demo_state :: state where
  "demo_state = new_collector demo_config blank_page Map.empty"

definition demo_record :: StockData where
  "demo_record =
     \<lparr>stock_code = ''005930'', stock_name = ''Samsung Electronics'', current_price = ''70000'',
      price_change = ''1000'', change_rate = ''1.45%'', volume = [], market_cap = [],
      investment_opinion = info_none,
      news_data =
        [\<lparr>n_title = ''Full headline'', n_date = ''2025.01.02'', n_source = ''Daily'', n_index = 1\<rparr>,
         \<lparr>n_title = ''Second'', n_date = ''2025.01.02'', n_source = ''Daily'', n_index = 3\<rparr>],
      discussion_data =
        [\<lparr>f_date = ''2025.01.02'', f_foreign_buy = ''10'', f_foreign_sell = ''20'',
          f_institution_buy = ''30'', f_institution_sell = ''40'', f_individual_volume = ''50'',
          f_index = 1\<rparr>,
         \<lparr>f_date = ''2025.01.01'', f_foreign_buy = ''1'', f_foreign_sell = ''2'',
          f_institution_buy = ''3'', f_institution_sell = ''4'', f_individual_volume = ''5'',
          f_index = 3\<rparr>],
      related_themes = [],
      chart_screenshots =
        [''fallback_screenshot'' \<mapsto> ''screenshots/005930_T/005930_company_analysis_fallback_T.png''],
      financial_data = Map.empty, technical_indicators = Map.empty, collected_at = ''T''\<rparr>"

definition slow_world :: world where
  "slow_world = demo_world\<lparr>pages := (\<lambda>_. blank_page)\<rparr>"

definition slow_record :: StockData where
  "slow_record =
     \<lparr>stock_code = ''005930'', stock_name = info_none, current_price = [],
      price_change = [], change_rate = [], volume = [], market_cap = [],
      investment_opinion = [], news_data = [], discussion_data = [], related_themes = [],
      chart_screenshots = Map.empty, financial_data = Map.empty,
      technical_indicators = Map.empty, collected_at = ''T''\<rparr>"

definition no_wait_world :: world where
  "no_wait_world = demo_world\<lparr>implicitly_wait_result := Some WebDriverException\<rparr>"

fun waits_pass :: "exn option list \<Rightarrow> bool" where
  "waits_pass [] = True"
| "waits_pass (None # rest) = True"
| "waits_pass (Some e # rest) = (e = TimeoutException \<and> waits_pass rest)"

definition delay_ok :: "delay \<Rightarrow> bool" where
  "delay_ok d = (case d of Seconds n \<Rightarrow> 0 \<le> n | NotANumber \<Rightarrow> False)"

definition navigation_succeeds :: "world \<Rightarrow> string \<Rightarrow> state \<Rightarrow> bool" where
  "navigation_succeeds w code s \<longleftrightarrow>
     get_result w (get_stock_url (config s) code) = None
     \<and> waits_pass (map (pg_wait (pages w (get_stock_url (config s) code))) selectors_to_try)
     \<and> delay_ok (delay_between_requests (config s))"

definition setup_steps :: "world \<Rightarrow> string \<Rightarrow> unit prog" where
  "setup_steps w code =
     seq (setup_stock_screenshot_folder w code) (\<lambda>_. setup_driver w)"

definition negative_delay_state :: state where
  "negative_delay_state = demo_state\<lparr>config := demo_config\<lparr>delay_between_requests := Seconds (- 1)\<rparr>\<rparr>"

definition broken_wait_world :: world where
  "broken_wait_world =
     demo_world\<lparr>pages := (\<lambda>_. blank_page\<lparr>pg_wait := (\<lambda>l.
        if l = (CLASS_NAME, ''chart_area'') then Some TimeoutException else Some WebDriverException)\<rparr>)\<rparr>"

definition flow_source :: "(nat \<times> element) list \<Rightarrow> flow_row \<Rightarrow> bool" where
  "flow_source xs x \<longleftrightarrow>
     (\<exists>i row cells. (i, row) \<in> set xs \<and> f_index x = Suc i
        \<and> el_find row (TAG_NAME, ''td'') = Inr cells \<and> 6 \<le> length cells
        \<and> (\<forall>s1. extract_row i cells s1 = (Inr x, s1)))"

definition flow_from_table :: "page \<Rightarrow> flow_row \<Rightarrow> bool" where
  "flow_from_table pg x \<longleftrightarrow>
     (\<exists>table rest trs cells.
        pg_find pg (CSS_SELECTOR, ''.type2, .tb_cont'') = Inr (table # rest)
        \<and> el_find table (TAG_NAME, ''tr'') = Inr trs
        \<and> 0 < f_index x \<and> f_index x \<le> 10 \<and> f_index x < length trs
        \<and> el_find (trs ! f_index x) (TAG_NAME, ''td'') = Inr cells \<and> 6 \<le> length cells
        \<and> (\<forall>s1. extract_row (f_index x - 1) cells s1 = (Inr x, s1)))"

definition news_from_list :: "page \<Rightarrow> news_item \<Rightarrow> bool" where
  "news_from_list pg n \<longleftrightarrow>
     (\<exists>items. pg_find pg (CSS_SELECTOR, ''.tb_cont, .newsList li'') = Inr items
        \<and> 0 < n_index n \<and> n_index n \<le> 20 \<and> n_index n \<le> length items
        \<and> (\<forall>s1. extract_news (n_index n - 1) (items ! (n_index n - 1)) s1 = (Inr n, s1)))"

definition flow_from_cells :: "page \<Rightarrow> flow_row \<Rightarrow> bool" where
  "flow_from_cells pg x \<longleftrightarrow>
     (\<exists>table rest trs cells c0 c1 c2 c3 c4 c5.
        pg_find pg (CSS_SELECTOR, ''.type2, .tb_cont'') = Inr (table # rest)
        \<and> el_find table (TAG_NAME, ''tr'') = Inr trs
        \<and> f_index x < length trs
        \<and> el_find (trs ! f_index x) (TAG_NAME, ''td'') = Inr cells \<and> 6 \<le> length cells
        \<and> el_text (cells ! 0) = Inr c0 \<and> el_text (cells ! 1) = Inr c1
        \<and> el_text (cells ! 2) = Inr c2 \<and> el_text (cells ! 3) = Inr c3
        \<and> el_text (cells ! 4) = Inr c4 \<and> el_text (cells ! 5) = Inr c5
        \<and> x = \<lparr>f_date = strip c0, f_foreign_buy = strip c1, f_foreign_sell = strip c2,
                 f_institution_buy = strip c3, f_institution_sell = strip c4,
                 f_individual_volume = strip c5, f_index = f_index x\<rparr>)"

definition demo_ready :: state where
  "demo_ready = demo_state\<lparr>current_stock_screenshot_dir := Some ''screenshots/005930_T''\<rparr>"

definition short_row :: element where
  "short_row = table_row [''note'', ''-'']"

definition demo_news :: "news_item list" where
  "demo_news = news_data demo_record"

definition demo_flows :: "flow_row list" where
  "demo_flows = discussion_data demo_record"

definition lookup_fails :: "page \<Rightarrow> locator \<Rightarrow> bool" where
  "lookup_fails pg loc \<longleftrightarrow> (case pg_find pg loc of Inl e \<Rightarrow> True | Inr es \<Rightarrow> es = [])"

definition title_name :: "exn + string \<Rightarrow> string" where
  "title_name t =
     (case t of
        Inl e \<Rightarrow> info_none
      | Inr t \<Rightarrow> if CHR '':'' \<in> set t then strip (takeWhile (\<lambda>c. c \<noteq> CHR '':'') t) else info_none)"

definition description_of :: "state \<Rightarrow> string" where
  "description_of s =
     (case basic_info (snd (company_description_block s)) ''company_description'' of
        Some d \<Rightarrow> d | None \<Rightarrow> [])"

definition news_capture_path :: "world \<Rightarrow> string \<Rightarrow> state \<Rightarrow> path" where
  "news_capture_path w code s =
     (case current_stock_screenshot_dir s of
        None \<Rightarrow> []
      | Some dir \<Rightarrow>
          join_path dir (code @ ''_news_cdp_full_'' @ strftime w ''%Y%m%d_%H%M%S'' (tick s) @ ''.''
            @ screenshot_format (config s)))"

definition on_news_page :: "world \<Rightarrow> string \<Rightarrow> state \<Rightarrow> state" where
  "on_news_page w code s =
     s\<lparr>calls := calls s @ [Get (news_url code)], current := pages w (news_url code),
       tick := Suc (tick s)\<rparr>"

definition cdp_succeeds :: "world \<Rightarrow> path \<Rightarrow> state \<Rightarrow> bool" where
  "cdp_succeeds w p s \<longleftrightarrow> fst (take_full_page_screenshot_cdp w p s) = Inr True"

definition cdp_opens_file :: "world \<Rightarrow> path \<Rightarrow> state \<Rightarrow> bool" where
  "cdp_opens_file w p s \<longleftrightarrow>
     (case pg_cdp_metrics (current s) of
        Inl e \<Rightarrow> False
      | Inr page_rect \<Rightarrow>
          (case pg_cdp_capture (current s) of
             Inl e \<Rightarrow> False
           | Inr base_64_png \<Rightarrow> open_wb w p = None))"

definition torn_world :: world where
  "torn_world =
     demo_world\<lparr>pages := (\<lambda>_. blank_page\<lparr>pg_cdp_metrics := Inr (1280, 3000),
                                           pg_cdp_capture := Inr None\<rparr>)\<rparr>"

definition cdp_world :: world where
  "cdp_world =
     demo_world\<lparr>pages := (\<lambda>_. blank_page\<lparr>pg_cdp_metrics := Inr (1280, 3000),
                                           pg_cdp_capture := Inr (Some ''PNG64'')\<rparr>)\<rparr>"

definition plain_capture_ready :: "page \<Rightarrow> bool" where
  "plain_capture_ready pg \<longleftrightarrow>
     (\<exists>h sz. pg_script pg BodyScrollHeight = Inr h \<and> pg_window_size pg = Inr sz
        \<and> pg_set_window_size pg (1920, h) = None)"

definition run_folder :: "world \<Rightarrow> string \<Rightarrow> state \<Rightarrow> path" where
  "run_folder w code s =
     join_path (save_path (config s)) (code @ ''_'' @ strftime w ''%y%m%d%H%M'' (tick s))"

definition fallback_name :: "world \<Rightarrow> string \<Rightarrow> state \<Rightarrow> string \<Rightarrow> path" where
  "fallback_name w code s timestamp =
     join_path (run_folder w code s)
       (code @ ''_company_analysis_fallback_'' @ timestamp @ ''.'' @ screenshot_format (config s))"

section \<open>Lemmas\<close>

lemma frame_refl [simp]: "frame s s"
  by (simp add: frame_def)

lemma frame_trans: "frame s s1 \<Longrightarrow> frame s1 s2 \<Longrightarrow> frame s s2"
  by (auto simp: frame_def)

lemma framed_ret [intro!, simp]: "framed (ret x)"
  by (simp add: framed_def ret_def)

lemma framed_throw [intro!, simp]: "framed (throw e)"
  by (simp add: framed_def throw_def)

lemma framed_answer [intro!, simp]: "framed (answer r)"
  by (simp add: framed_def answer_def)

lemma framed_attempt [intro!, simp]: "framed (attempt r)"
  by (simp add: framed_def attempt_def split: option.splits)

lemma framed_seq [intro!]:
  assumes "framed m" and "\<And>x. framed (f x)"
  shows "framed (seq m f)"
  unfolding framed_def
proof
  fix s
  show "frame s (snd (seq m f s))"
  proof (cases "m s")
    case (Pair r s1)
    have f1: "frame s s1" using assms(1) Pair by (auto simp: framed_def dest: spec [of _ s])
    show ?thesis
    proof (cases r)
      case (Inl e)
      then show ?thesis using Pair f1 by (simp add: seq_def)
    next
      case (Inr x)
      have "frame s1 (snd (f x s1))" using assms(2) by (simp add: framed_def)
      then show ?thesis using Pair Inr f1 by (auto simp: seq_def intro: frame_trans)
    qed
  qed
qed

lemma framed_try_except [intro!]:
  assumes "framed m" and "\<And>e. framed (h e)"
  shows "framed (try_except m h)"
  unfolding framed_def
proof
  fix s
  show "frame s (snd (try_except m h s))"
  proof (cases "m s")
    case (Pair r s1)
    have f1: "frame s s1" using assms(1) Pair by (auto simp: framed_def dest: spec [of _ s])
    show ?thesis
    proof (cases r)
      case (Inr x)
      then show ?thesis using Pair f1 by (simp add: try_except_def)
    next
      case (Inl e)
      have "frame s1 (snd (h e s1))" using assms(2) by (simp add: framed_def)
      then show ?thesis using Pair Inl f1 by (auto simp: try_except_def intro: frame_trans)
    qed
  qed
qed

lemma framed_try_except_only [intro!]:
  assumes "framed m" and "framed h"
  shows "framed (try_except_only x m h)"
  unfolding framed_def
proof
  fix s
  show "frame s (snd (try_except_only x m h s))"
  proof (cases "m s")
    case (Pair r s1)
    have f1: "frame s s1" using assms(1) Pair by (auto simp: framed_def dest: spec [of _ s])
    have "frame s1 (snd (h s1))" using assms(2) by (simp add: framed_def)
    then show ?thesis using Pair f1
      by (cases r) (auto simp: try_except_only_def intro: frame_trans)
  qed
qed

lemma framed_if [intro!]: "(b \<Longrightarrow> framed m) \<Longrightarrow> (\<not> b \<Longrightarrow> framed n) \<Longrightarrow> framed (if b then m else n)"
  by simp

lemma framed_now [intro!, simp]: "framed (now w fmt)"
  by (simp add: framed_def now_def frame_def)

lemma framed_get_config [intro!, simp]: "framed get_config"
  by (simp add: framed_def get_config_def)

lemma framed_driver_get [intro!, simp]: "framed (driver_get w u)"
  by (simp add: framed_def driver_get_def frame_def Let_def split: option.splits)

lemma framed_find_elements [intro!, simp]: "framed (find_elements loc)"
  by (simp add: framed_def find_elements_def)

lemma framed_find_element [intro!, simp]: "framed (find_element loc)"
  by (auto simp: find_element_def split: list.splits)

lemma framed_find_elements_in [intro!, simp]: "framed (find_elements_in el loc)"
  by (simp add: find_elements_in_def)

lemma framed_find_element_in [intro!, simp]: "framed (find_element_in el loc)"
  by (auto simp: find_element_in_def split: list.splits)

lemma framed_text_of [intro!, simp]: "framed (text_of el)"
  by (simp add: text_of_def)

lemma framed_execute_script [intro!, simp]: "framed (execute_script js)"
  by (simp add: framed_def execute_script_def)

lemma framed_driver_title [intro!, simp]: "framed driver_title"
  by (simp add: framed_def driver_title_def)

lemma framed_wait_until_present [intro!, simp]: "framed (wait_until_present loc)"
  by (simp add: framed_def wait_until_present_def attempt_def split: option.splits)

lemma framed_set_info [intro!, simp]: "framed (set_info k v)"
  by (simp add: framed_def set_info_def frame_def)

lemma framed_description_loop [intro!, simp]: "framed (description_loop es acc)"
  by (induction es arbitrary: acc) (auto simp: Let_def)

lemma framed_company_description_block [intro!, simp]: "framed company_description_block"
  unfolding company_description_block_def by (intro framed_try_except framed_seq) simp_all

lemma framed_name_from_title [intro!, simp]: "framed name_from_title"
  unfolding name_from_title_def by (intro framed_try_except framed_seq framed_if) simp_all

lemma framed_state_fun:
  "(\<And>s. frame s (snd (m s))) \<Longrightarrow> framed m"
  by (simp add: framed_def)

lemma framed_get_basic_info [intro!, simp]: "framed get_basic_info"
  unfolding get_basic_info_def
  apply (intro framed_try_except framed_seq framed_if)
  apply simp_all
  apply (simp_all add: framed_def frame_def)
  done

lemma framed_record_call [intro!]: "c \<noteq> Quit \<Longrightarrow> c \<noteq> Launch \<Longrightarrow> framed (record_call c)"
  by (simp add: framed_def record_call_def frame_def)

lemma framed_write_file [intro!, simp]: "framed (write_file p b)"
  by (simp add: framed_def write_file_def frame_def)

lemma framed_take_full_page_screenshot_cdp [intro!, simp]:
  "framed (take_full_page_screenshot_cdp w p)"
  unfolding take_full_page_screenshot_cdp_def
  apply (intro framed_try_except framed_seq framed_record_call)
  apply (simp_all split: option.splits)
  apply (simp_all add: framed_def)
  done

lemma framed_save_screenshot [intro!, simp]: "framed (save_screenshot p)"
  unfolding save_screenshot_def
  apply (intro framed_seq framed_record_call)
  apply (simp_all add: framed_def frame_def split: sum.splits option.splits)
  done

lemma framed_element_screenshot [intro!, simp]: "framed (element_screenshot el p)"
  by (simp add: framed_def element_screenshot_def frame_def split: sum.splits option.splits)

lemma framed_screenshot_path [intro!, simp]: "framed (screenshot_path w code kind)"
  unfolding screenshot_path_def Let_def
  apply (intro framed_seq)
  apply simp_all
  apply (simp_all add: framed_def frame_def split: option.splits)
  done

lemma framed_wait_for_any [intro!, simp]: "framed (wait_for_any ls)"
  by (induction ls) auto

lemma framed_sleep [intro!, simp]: "framed (sleep d)"
  by (simp add: sleep_def split: delay.splits)

lemma framed_navigate_to_stock [intro!, simp]: "framed (navigate_to_stock w code)"
  unfolding navigate_to_stock_def by (intro framed_try_except framed_seq) simp_all

lemma framed_switch_to_frame [intro!, simp]: "framed (switch_to_frame el)"
  by (simp add: framed_def switch_to_frame_def attempt_def split: option.splits)

lemma framed_switch_to_default_content [intro!, simp]: "framed switch_to_default_content"
  by (simp add: framed_def switch_to_default_content_def attempt_def split: option.splits)

lemma framed_get_window_size [intro!, simp]: "framed get_window_size"
  by (simp add: framed_def get_window_size_def)

lemma framed_set_window_size [intro!, simp]: "framed (set_window_size a b)"
  by (simp add: framed_def set_window_size_def attempt_def split: option.splits)

lemma framed_iframe_capture [intro!, simp]: "framed (iframe_capture w code)"
  unfolding iframe_capture_def by (intro framed_seq framed_if) simp_all

lemma framed_plain_page_capture [intro!, simp]: "framed (plain_page_capture w code)"
  unfolding plain_page_capture_def by (intro framed_seq) simp_all

lemma framed_capture_company_analysis [intro!, simp]: "framed (capture_company_analysis w code)"
  unfolding capture_company_analysis_def by (intro framed_try_except framed_seq) simp_all

lemma framed_capture_full_page [intro!, simp]: "framed (capture_full_page w code kind)"
  unfolding capture_full_page_def by (intro framed_seq framed_if) simp_all

lemma framed_get_title_attribute [intro!, simp]: "framed (get_title_attribute el)"
  by (simp add: get_title_attribute_def)

lemma framed_news_title [intro!, simp]: "framed (news_title el)"
  unfolding news_title_def by (auto split: option.splits)

lemma framed_extract_news [intro!, simp]: "framed (extract_news i el)"
  unfolding extract_news_def by (intro framed_seq) simp_all

lemma framed_news_loop [intro!, simp]: "framed (news_loop xs acc)"
  by (induction xs acc rule: news_loop.induct) auto

lemma framed_get_news_announcements [intro!, simp]: "framed (get_news_announcements w code)"
  unfolding get_news_announcements_def by (intro framed_try_except framed_seq) simp_all

lemma framed_append_row [intro!, simp]: "framed (append_row r)"
  by (simp add: framed_def append_row_def frame_def)

lemma framed_extract_row [intro!, simp]: "framed (extract_row i cells)"
  unfolding extract_row_def by (intro framed_seq) simp_all

lemma framed_rows_loop [intro!, simp]: "framed (rows_loop xs)"
  by (induction xs rule: rows_loop.induct) auto

lemma framed_table_block [intro!, simp]: "framed table_block"
  unfolding table_block_def by (intro framed_try_except framed_seq) simp_all

lemma framed_get_investor_trends [intro!, simp]: "framed (get_investor_trends w code)"
  unfolding get_investor_trends_def
  apply (intro framed_try_except framed_seq)
  apply simp_all
  apply (simp_all add: framed_def frame_def)
  done

lemma framed_click_by_xpath [intro!, simp]: "framed (click_by_xpath xp)"
  unfolding click_by_xpath_def by (intro framed_seq) simp_all

lemma framed_indicator_block [intro!, simp]: "framed indicator_block"
  unfolding indicator_block_def by (intro framed_try_except framed_seq) simp_all

lemma framed_show_interval [intro!, simp]: "framed (show_interval w t)"
  by (simp add: framed_def show_interval_def frame_def)

lemma framed_capture_chart [intro!, simp]: "framed (capture_chart w code t shots)"
  unfolding capture_chart_def by (intro framed_try_except framed_seq) simp_all

lemma framed_chart_loop [intro!, simp]: "framed (chart_loop w code ts shots)"
  by (induction w code ts shots rule: chart_loop.induct) auto

lemma framed_hour_chart [intro!, simp]: "framed (hour_chart w code shots)"
  unfolding hour_chart_def by (intro framed_try_except framed_seq framed_if) simp_all

lemma framed_capture_advanced_charts [intro!, simp]: "framed (capture_advanced_charts w code)"
  unfolding capture_advanced_charts_def by (intro framed_try_except framed_seq) simp_all

lemma no_raiseD: "no_raise m \<Longrightarrow> \<exists>v s'. m s = (Inr v, s')"
  by (metis no_raise_def prod.collapse)

lemma no_raise_ret [intro!, simp]: "no_raise (ret x)"
  by (simp add: no_raise_def ret_def)

lemma no_raise_seq [intro!]:
  assumes "no_raise m" and "\<And>x. no_raise (f x)"
  shows "no_raise (seq m f)"
  unfolding no_raise_def
proof
  fix s
  obtain v s1 where m: "m s = (Inr v, s1)" using no_raiseD [OF assms(1)] by blast
  obtain u s2 where "f v s1 = (Inr u, s2)" using no_raiseD [OF assms(2)] by blast
  then show "\<exists>x. fst (seq m f s) = Inr x" using m by (simp add: seq_def)
qed

lemma no_raise_try_except [intro!]:
  assumes "\<And>e. no_raise (h e)"
  shows "no_raise (try_except m h)"
  unfolding no_raise_def
proof
  fix s
  show "\<exists>x. fst (try_except m h s) = Inr x"
  proof (cases "m s")
    case (Pair r s1)
    show ?thesis
    proof (cases r)
      case (Inr x)
      then show ?thesis using Pair by (simp add: try_except_def)
    next
      case (Inl e)
      obtain u s2 where "h e s1 = (Inr u, s2)" using no_raiseD [OF assms] by blast
      then show ?thesis using Pair Inl by (simp add: try_except_def)
    qed
  qed
qed

lemma no_raise_set_info [intro!, simp]: "no_raise (set_info k v)"
  by (simp add: no_raise_def set_info_def)

lemma no_raise_now [intro!, simp]: "no_raise (now w fmt)"
  by (simp add: no_raise_def now_def)

lemma no_raise_name_from_title [intro!, simp]: "no_raise name_from_title"
  unfolding name_from_title_def by (intro no_raise_try_except) simp

lemma no_raise_get_basic_info [intro!, simp]: "no_raise get_basic_info"
  unfolding get_basic_info_def
  apply (intro no_raise_seq no_raise_try_except)
  apply simp_all
  apply (simp_all add: no_raise_def)
  done

lemma no_raise_navigate_to_stock [intro!, simp]: "no_raise (navigate_to_stock w code)"
  unfolding navigate_to_stock_def by (intro no_raise_try_except) simp

lemma no_raise_capture_company_analysis [intro!, simp]:
  "no_raise (capture_company_analysis w code)"
  unfolding capture_company_analysis_def by (intro no_raise_try_except) simp

lemma no_raise_get_news_announcements [intro!, simp]:
  "no_raise (get_news_announcements w code)"
  unfolding get_news_announcements_def by (intro no_raise_try_except) simp

lemma no_raise_get_investor_trends [intro!, simp]:
  "no_raise (get_investor_trends w code)"
  unfolding get_investor_trends_def
  apply (intro no_raise_seq no_raise_try_except)
  apply simp_all
  apply (simp_all add: no_raise_def)
  done

lemma no_raise_capture_advanced_charts [intro!, simp]:
  "no_raise (capture_advanced_charts w code)"
  unfolding capture_advanced_charts_def by (intro no_raise_try_except) simp

lemma no_raise_close_driver [intro!, simp]: "no_raise (close_driver w)"
  by (simp add: no_raise_def close_driver_def try_except_def seq_def record_call_def
      attempt_def ret_def split: option.splits)

lemma no_raise_get_related_themes [intro!, simp]: "no_raise get_related_themes"
  unfolding get_related_themes_def by (intro no_raise_try_except) simp

lemma no_raise_after_overview [intro!, simp]: "no_raise (after_overview w code)"
  unfolding after_overview_def by (intro no_raise_seq) simp_all

lemma framed_after_overview [intro!, simp]: "framed (after_overview w code)"
  unfolding after_overview_def by (intro framed_seq) simp_all

lemma seq_assoc: "seq (seq m f) g = seq m (\<lambda>x. seq (f x) g)"
  by (rule ext) (simp add: seq_def split: prod.splits sum.splits)

lemma collect_stock_data_steps:
  "collect_stock_data w code =
     try_except
       (seq (reach_overview w code) (\<lambda>ok. if \<not> ok then ret None else after_overview w code))
       (\<lambda>e. seq (close_driver w) (\<lambda>_. ret None))"
  unfolding collect_stock_data_def reach_overview_def after_overview_def seq_assoc ..

lemma after_overview_result:
  assumes "after_overview w code s = (Inr x, s')"
  shows "\<exists>r. x = Some r \<and> stock_code r = code \<and> related_themes r = []
           \<and> financial_data r = Map.empty \<and> technical_indicators r = Map.empty"
  using assms unfolding after_overview_def
  by (auto simp: seq_def ret_def split: prod.splits sum.splits)

lemma after_overview_Some:
  "\<exists>r s'. after_overview w code s = (Inr (Some r), s') \<and> stock_code r = code \<and> related_themes r = []"
  using no_raiseD [OF no_raise_after_overview, of w code s] after_overview_result by blast

lemma setup_stock_screenshot_folder_effect:
  "setup_stock_screenshot_folder w code s =
     (case mkdir_result w (join_path (save_path (config s)) (code @ ''_'' @ strftime w ''%y%m%d%H%M'' (tick s)))
        of None \<Rightarrow> Inr () | Some e \<Rightarrow> Inl e,
      s\<lparr>tick := Suc (tick s),
        current_stock_screenshot_dir :=
          Some (join_path (save_path (config s)) (code @ ''_'' @ strftime w ''%y%m%d%H%M'' (tick s)))\<rparr>)"
  by (simp add: setup_stock_screenshot_folder_def seq_def now_def get_config_def attempt_def
      Let_def split: option.splits)

lemma setup_driver_effect:
  assumes "setup_driver w s = (r, s1)"
  shows "(\<exists>t. calls s1 = calls s @ t \<and> Quit \<notin> set t)
         \<and> config s1 = config s \<and> screenshot_dir s1 = screenshot_dir s
         \<and> current_stock_screenshot_dir s1 = current_stock_screenshot_dir s
         \<and> tick s1 = tick s
         \<and> (r = Inr () \<longrightarrow> driver s1 = Running)
         \<and> (driver s1 = driver s \<or> driver s1 = Running)"
  using assms
  by (auto simp: setup_driver_def launch_def try_except_def seq_def attempt_def record_call_def
      throw_def split: option.splits)

lemma reach_overview_effect:
  assumes "reach_overview w code s = (r, s1)"
  shows "(\<exists>t. calls s1 = calls s @ t \<and> Quit \<notin> set t)
         \<and> config s1 = config s \<and> screenshot_dir s1 = screenshot_dir s
         \<and> current_stock_screenshot_dir s1 =
             Some (join_path (save_path (config s)) (code @ ''_'' @ strftime w ''%y%m%d%H%M'' (tick s)))
         \<and> ((\<exists>ok. r = Inr ok) \<longrightarrow> driver s1 = Running)
         \<and> (driver s1 = driver s \<or> driver s1 = Running)"
proof -
  let ?s0 = "snd (setup_stock_screenshot_folder w code s)"
  show ?thesis
  proof (cases "fst (setup_stock_screenshot_folder w code s)")
    case (Inl e)
    then have "s1 = ?s0" using assms
      by (simp add: reach_overview_def seq_def split: prod.splits)
    moreover have "r = Inl e" using Inl assms
      by (simp add: reach_overview_def seq_def split: prod.splits)
    ultimately show ?thesis by (simp add: setup_stock_screenshot_folder_effect)
  next
    case (Inr u)
    obtain r2 s2 where d: "setup_driver w ?s0 = (r2, s2)" by (cases "setup_driver w ?s0")
    note e2 = setup_driver_effect [OF d]
    show ?thesis
    proof (cases r2)
      case (Inl e)
      then have "s1 = s2" "r = Inl e" using assms Inr d
        by (simp_all add: reach_overview_def seq_def split: prod.splits)
      then show ?thesis using e2 by (auto simp: setup_stock_screenshot_folder_effect)
    next
      case (Inr u2)
      then have n: "navigate_to_stock w code s2 = (r, s1)" using assms \<open>fst _ = Inr u\<close> d
        by (simp add: reach_overview_def seq_def split: prod.splits)
      have "frame s2 s1" using framed_navigate_to_stock [of w code] n
        by (auto simp: framed_def dest: spec [of _ s2])
      then show ?thesis using e2 Inr
        by (auto simp: frame_def setup_stock_screenshot_folder_effect)
    qed
  qed
qed

lemma collect_after_True:
  assumes "reach_overview w code s = (Inr True, s1)"
  shows "collect_stock_data w code s = after_overview w code s1"
proof -
  obtain r s' where a: "after_overview w code s1 = (Inr (Some r), s')"
    using after_overview_Some by blast
  show ?thesis using assms a
    by (simp add: collect_stock_data_steps try_except_def seq_def)
qed

lemma collect_after_False:
  assumes "reach_overview w code s = (Inr False, s1)"
  shows "collect_stock_data w code s = (Inr None, s1)"
  using assms by (simp add: collect_stock_data_steps try_except_def seq_def ret_def)

lemma collect_after_raise:
  assumes "reach_overview w code s = (Inl e, s1)"
  shows "collect_stock_data w code s = (Inr None, snd (close_driver w s1))"
proof -
  obtain u s2 where "close_driver w s1 = (Inr u, s2)"
    using no_raiseD [OF no_raise_close_driver] by blast
  then show ?thesis using assms
    by (simp add: collect_stock_data_steps try_except_def seq_def ret_def)
qed

lemma collect_Some_iff:
  "(\<exists>r. fst (collect_stock_data w code s) = Inr (Some r)) \<longleftrightarrow> fst (reach_overview w code s) = Inr True"
proof (cases "reach_overview w code s")
  case (Pair x s1)
  show ?thesis
  proof (cases x)
    case (Inl e)
    then show ?thesis using Pair collect_after_raise [of w code s e s1] by simp
  next
    case (Inr ok)
    show ?thesis
    proof (cases ok)
      case True
      then show ?thesis using Pair Inr collect_after_True [of w code s s1]
          after_overview_Some [of w code s1] by auto
    next
      case False
      then show ?thesis using Pair Inr collect_after_False [of w code s s1] by simp
    qed
  qed
qed

lemma collect_no_raise: "\<exists>x. fst (collect_stock_data w code s) = Inr x"
proof (cases "reach_overview w code s")
  case (Pair x s1)
  show ?thesis
  proof (cases x)
    case (Inl e)
    then show ?thesis using Pair collect_after_raise [of w code s e s1] by simp
  next
    case (Inr ok)
    show ?thesis
    proof (cases ok)
      case True
      then show ?thesis using Pair Inr collect_after_True [of w code s s1]
          after_overview_Some [of w code s1] by auto
    next
      case False
      then show ?thesis using Pair Inr collect_after_False [of w code s s1] by simp
    qed
  qed
qed

lemma collect_record:
  assumes "fst (collect_stock_data w code s) = Inr (Some r)"
  shows "stock_code r = code \<and> related_themes r = []"
proof -
  have "fst (reach_overview w code s) = Inr True" using assms collect_Some_iff by blast
  then obtain s1 where "reach_overview w code s = (Inr True, s1)"
    by (cases "reach_overview w code s") simp
  then have "collect_stock_data w code s = after_overview w code s1"
    by (rule collect_after_True)
  then show ?thesis using assms after_overview_result [of w code s1 "Some r"]
    by (cases "after_overview w code s1") auto
qed

lemma framedD: "framed m \<Longrightarrow> frame s (snd (m s))"
  by (simp add: framed_def)

lemma collect_keeps_session:
  assumes "fst (collect_stock_data w code s) = Inr (Some r)"
  shows "driver (snd (collect_stock_data w code s)) = Running
         \<and> (\<exists>t. calls (snd (collect_stock_data w code s)) = calls s @ t \<and> Quit \<notin> set t)"
proof -
  have "fst (reach_overview w code s) = Inr True" using assms collect_Some_iff by blast
  then obtain s1 where r: "reach_overview w code s = (Inr True, s1)"
    by (cases "reach_overview w code s") simp
  have c: "collect_stock_data w code s = after_overview w code s1"
    using r by (rule collect_after_True)
  have "frame s1 (snd (after_overview w code s1))"
    by (rule framedD) simp
  then show ?thesis using reach_overview_effect [OF r] c
    by (auto simp: frame_def)
qed

lemma close_driver_effect:
  "driver s \<noteq> NoDriver \<Longrightarrow>
     calls (snd (close_driver w s)) = calls s @ [Quit]
     \<and> (quit_result w = None \<longrightarrow> driver (snd (close_driver w s)) = Terminated)"
  by (simp add: close_driver_def try_except_def seq_def record_call_def attempt_def ret_def
      split: option.splits)

lemma close_driver_screenshot_dir:
  "screenshot_dir (snd (close_driver w s)) = screenshot_dir s"
  by (simp add: close_driver_def try_except_def seq_def record_call_def attempt_def ret_def
      split: option.splits)

lemma collect_screenshot_dir:
  "screenshot_dir (snd (collect_stock_data w code s)) = screenshot_dir s"
proof (cases "reach_overview w code s")
  case (Pair x s1)
  note e = reach_overview_effect [OF Pair]
  show ?thesis
  proof (cases x)
    case (Inl ex)
    then show ?thesis using Pair e collect_after_raise [of w code s ex s1]
      by (simp add: close_driver_screenshot_dir)
  next
    case (Inr ok)
    show ?thesis
    proof (cases ok)
      case True
      have "frame s1 (snd (after_overview w code s1))" by (rule framedD) simp
      then show ?thesis using Pair Inr True e collect_after_True [of w code s s1]
        by (simp add: frame_def)
    next
      case False
      then show ?thesis using Pair Inr e collect_after_False [of w code s s1] by simp
    qed
  qed
qed

lemma save_data_to_json_None:
  "screenshot_dir s = None \<Longrightarrow>
     save_data_to_json w sd None s = (Inl AttributeError, s\<lparr>tick := Suc (tick s)\<rparr>)"
  by (simp add: save_data_to_json_def default_json_path_def seq_def now_def
      get_screenshot_dir_def Let_def)

lemmas prog_defs = ret_def throw_def seq_def try_except_def try_except_only_def answer_def
  attempt_def record_call_def now_def find_elements_def find_element_def find_elements_in_def
  find_element_in_def text_of_def get_title_attribute_def execute_script_def driver_title_def
  wait_until_present_def set_info_def get_config_def write_file_def driver_get_def
  save_screenshot_def element_screenshot_def screenshot_path_def switch_to_frame_def
  switch_to_default_content_def get_window_size_def set_window_size_def append_row_def
  show_interval_def launch_def sleep_def

lemmas stage_defs = setup_stock_screenshot_folder_def setup_driver_def close_driver_def
  take_full_page_screenshot_cdp_def get_stock_url_def selectors_to_try_def navigate_to_stock_def
  coinfo_url_def iframe_xpath_def iframe_capture_def plain_page_capture_def
  capture_company_analysis_def news_url_def capture_full_page_def news_title_def
  extract_news_def get_news_announcements_def frgn_url_def extract_row_def table_block_def
  get_investor_trends_def fchart_url_def indicator_menu_xpath_def studies_xpath_def
  click_by_xpath_def indicator_block_def chart_types_def capture_chart_def hour_selector_def
  hour_chart_def capture_advanced_charts_def get_related_themes_def dict_get_def
  collect_stock_data_def company_description_block_def name_from_title_def get_basic_info_def
  join_path_def

lemmas demo_defs = text_element_def container_def blank_page_def theme_section_def
  overview_page_def nameless_page_def host_page_def headline_def news_page_def table_row_def
  flows_page_def demo_config_def demo_world_def demo_state_def new_collector_def

lemma is_space_simps:
  "is_space c = ((9 \<le> (of_char c :: nat) \<and> (of_char c :: nat) \<le> 13) \<or> (28 \<le> (of_char c :: nat) \<and> (of_char c :: nat) \<le> 32))"
  by (simp add: is_space_def Let_def)

lemma demo_run:
  "fst (collect_stock_data demo_world ''005930'' demo_state) = Inr (Some demo_record)"
  by (simp add: stage_defs prog_defs demo_defs demo_record_def strip_def is_space_simps
      remove_commas_def List.enumerate_eq_zip Let_def)

lemmas eval_defs = stage_defs prog_defs demo_defs strip_def is_space_simps
      remove_commas_def List.enumerate_eq_zip Let_def

lemma slow_run:
  "fst (collect_stock_data slow_world ''005930'' demo_state) = Inr (Some slow_record)"
  by (simp add: eval_defs slow_world_def slow_record_def)

lemma wait_for_any_result:
  "wait_for_any ls s =
     (if waits_pass (map (pg_wait (current s)) ls)
      then (Inr (\<exists>l\<in>set ls. pg_wait (current s) l = None), s)
      else (Inl (the (the (find (\<lambda>r. r \<noteq> Some TimeoutException) (map (pg_wait (current s)) ls)))), s))"
proof (induction ls)
  case Nil
  show ?case by (simp add: ret_def)
next
  case (Cons l ls)
  show ?case
  proof (cases "pg_wait (current s) l")
    case None
    then show ?thesis
      by (simp add: try_except_only_def seq_def wait_until_present_def attempt_def ret_def)
  next
    case (Some e)
    show ?thesis
    proof (cases "e = TimeoutException")
      case True
      then have "wait_for_any (l # ls) s = wait_for_any ls s" using Some
        by (simp add: try_except_only_def seq_def wait_until_present_def attempt_def ret_def)
      then show ?thesis using Cons.IH Some True by simp
    next
      case False
      then show ?thesis using Some
        by (simp add: try_except_only_def seq_def wait_until_present_def attempt_def ret_def)
    qed
  qed
qed

lemma waits_pass_timeouts:
  "\<forall>r\<in>set rs. r \<in> {None, Some TimeoutException} \<Longrightarrow> waits_pass rs"
  by (induction rs rule: waits_pass.induct) auto

lemma waits_pass_raise:
  "set ts \<subseteq> {Some TimeoutException} \<Longrightarrow> e \<noteq> TimeoutException \<Longrightarrow>
     \<not> waits_pass (ts @ Some e # rest)"
  by (induction ts) auto

lemma sleep_result:
  "sleep d s = (if delay_ok d then Inr () else Inl (if d = NotANumber then TypeError else ValueError), s)"
  by (simp add: sleep_def delay_ok_def ret_def throw_def split: delay.splits)

lemma navigate_to_stock_result:
  "fst (navigate_to_stock w code s) = Inr (navigation_succeeds w code s)"
proof (cases "get_result w (get_stock_url (config s) code)")
  case (Some e)
  then show ?thesis
    by (simp add: navigate_to_stock_def navigation_succeeds_def try_except_def seq_def
        get_config_def ret_def driver_get_def Let_def)
next
  case None
  let ?s1 = "s\<lparr>calls := calls s @ [Get (get_stock_url (config s) code)],
               current := pages w (get_stock_url (config s) code)\<rparr>"
  have g: "driver_get w (get_stock_url (config s) code) s = (Inr (), ?s1)"
    using None by (simp add: driver_get_def Let_def)
  show ?thesis
    using None g wait_for_any_result [of selectors_to_try ?s1]
    by (simp add: navigate_to_stock_def navigation_succeeds_def try_except_def seq_def
        get_config_def ret_def sleep_result)
qed

lemma setup_steps_config: "config (snd (setup_steps w code s)) = config s"
proof -
  obtain r0 s0 where a: "setup_stock_screenshot_folder w code s = (r0, s0)"
    by (cases "setup_stock_screenshot_folder w code s")
  have c0: "config s0 = config s"
    using a unfolding setup_stock_screenshot_folder_effect by auto
  show ?thesis
  proof (cases r0)
    case (Inl e)
    then show ?thesis using a c0 by (simp add: setup_steps_def seq_def)
  next
    case (Inr u)
    obtain r2 s2 where d: "setup_driver w s0 = (r2, s2)" by (cases "setup_driver w s0")
    have "setup_steps w code s = (r2, s2)"
      using Inr a d by (simp add: setup_steps_def seq_def)
    then show ?thesis using setup_driver_effect [OF d] c0 by simp
  qed
qed

lemma navigation_succeeds_config:
  "config s1 = config s \<Longrightarrow> navigation_succeeds w code s1 = navigation_succeeds w code s"
  by (simp add: navigation_succeeds_def)

lemma reach_overview_setup:
  "reach_overview w code = seq (setup_steps w code) (\<lambda>_. navigate_to_stock w code)"
  unfolding reach_overview_def setup_steps_def seq_assoc ..

lemma reach_overview_True_iff:
  "fst (reach_overview w code s) = Inr True \<longleftrightarrow>
     (\<exists>u. fst (setup_steps w code s) = Inr u) \<and> navigation_succeeds w code s"
proof (cases "setup_steps w code s")
  case (Pair r s1)
  have cfg: "config s1 = config s" using setup_steps_config [of w code s] Pair by simp
  show ?thesis
  proof (cases r)
    case (Inl e)
    then show ?thesis using Pair by (simp add: reach_overview_setup seq_def)
  next
    case (Inr u)
    have "fst (reach_overview w code s) = fst (navigate_to_stock w code s1)"
      using Pair Inr by (simp add: reach_overview_setup seq_def)
    then show ?thesis
      using Pair Inr navigate_to_stock_result [of w code s1] navigation_succeeds_config [OF cfg]
      by simp
  qed
qed

lemma theme_loop_distinct:
  "distinct themes \<Longrightarrow> \<exists>ts. fst (theme_loop links themes s) = Inr ts \<and> distinct ts"
proof (induction links arbitrary: themes)
  case Nil
  then show ?case by (simp add: ret_def)
next
  case (Cons l links)
  show ?case
  proof (cases "el_text l")
    case (Inl e)
    then show ?thesis using Cons.prems
      by (simp add: try_except_def seq_def text_of_def answer_def ret_def)
  next
    case (Inr t)
    let ?themes = "if strip t \<noteq> [] \<and> strip t \<notin> set themes then themes @ [strip t] else themes"
    have "distinct ?themes" using Cons.prems by simp
    then obtain ts where "fst (theme_loop links ?themes s) = Inr ts" "distinct ts"
      using Cons.IH by blast
    then show ?thesis using Inr
      by (cases "theme_loop links ?themes s")
         (simp add: try_except_def seq_def text_of_def answer_def Let_def)
  qed
qed

lemma get_related_themes_distinct:
  "\<exists>ts. fst (get_related_themes s) = Inr ts \<and> distinct ts"
proof (cases "seq (find_element (CLASS_NAME, ''group_theme'')) (\<lambda>theme_section.
          find_elements_in theme_section (TAG_NAME, ''a'')) s")
  case (Pair r s1)
  have same: "s1 = s" using Pair
    by (auto simp: seq_def find_element_def find_elements_def find_elements_in_def answer_def
        throw_def ret_def split: sum.splits list.splits)
  show ?thesis
  proof (cases r)
    case (Inl e)
    then show ?thesis using Pair
      by (auto simp: get_related_themes_def try_except_def seq_def ret_def split: prod.splits sum.splits)
  next
    case (Inr links)
    obtain ts where "fst (theme_loop links [] s) = Inr ts" "distinct ts"
      using theme_loop_distinct [of "[]"] by auto
    then show ?thesis using Pair Inr same
      by (cases "theme_loop links [] s")
         (auto simp: get_related_themes_def try_except_def seq_def ret_def split: prod.splits sum.splits)
  qed
qed

lemma save_data_to_json_explicit_path:
  "open_w w p = None \<Longrightarrow>
     save_data_to_json w sd (Some p) s = (Inr p, s\<lparr>fs := (fs s)(p \<mapsto> json_dumps w sd)\<rparr>)"
  by (simp add: save_data_to_json_def try_except_def seq_def attempt_def write_file_def ret_def)

lemma sorted_wrt_subseq:
  assumes "subseq xs ys" and "sorted_wrt P ys"
  shows "sorted_wrt P xs"
  using assms
proof (induction rule: list_emb.induct)
  case (list_emb_Nil ys)
  then show ?case by simp
next
  case (list_emb_Cons xs ys y)
  then show ?case by simp
next
  case (list_emb_Cons2 x y xs ys)
  have "set xs \<subseteq> set ys" using list_emb_Cons2.hyps(2) by (auto elim: list_emb_set)
  then show ?case using list_emb_Cons2 by auto
qed

lemma extract_news_pure: "extract_news i e s = (fst (extract_news i e s'), s)"
  by (simp add: extract_news_def news_title_def seq_def find_element_in_def find_elements_in_def
      answer_def text_of_def get_title_attribute_def ret_def throw_def
      split: sum.splits list.splits option.splits)

lemma seq_InrE:
  assumes "seq m f s = (Inr y, s')"
  obtains x s1 where "m s = (Inr x, s1)" and "f x s1 = (Inr y, s')"
  using assms by (auto simp: seq_def split: prod.splits sum.splits)

lemma extract_news_index: "extract_news i e s = (Inr n, s') \<Longrightarrow> n_index n = Suc i"
  unfolding extract_news_def by (elim seq_InrE) (auto simp: ret_def)

lemma extract_news_cases:
  obtains (ok) n where "\<forall>s. extract_news i e s = (Inr n, s)"
  | (skip) err where "\<forall>s. extract_news i e s = (Inl err, s)"
proof (cases "fst (extract_news i e s0)")
  case (Inl err)
  have "\<forall>s. extract_news i e s = (Inl err, s)"
    by (metis Inl extract_news_pure)
  then show ?thesis by (rule skip)
next
  case (Inr n)
  have "\<forall>s. extract_news i e s = (Inr n, s)"
    by (metis Inr extract_news_pure)
  then show ?thesis by (rule ok)
qed

lemma news_loop_spec:
  "\<exists>ns. news_loop xs acc s = (Inr (acc @ ns), s)
     \<and> subseq (map n_index ns) (map (\<lambda>x. Suc (fst x)) xs)
     \<and> (\<forall>n\<in>set ns. \<exists>i e. (i, e) \<in> set xs \<and> n_index n = Suc i
            \<and> (\<forall>s1. extract_news i e s1 = (Inr n, s1)))"
proof (induction xs arbitrary: acc)
  case Nil
  show ?case by (simp add: ret_def)
next
  case (Cons x xs)
  obtain i e where x: "x = (i, e)" by (cases x)
  show ?case
  proof (cases i e rule: extract_news_cases)
    case (skip err)
    then have step: "news_loop (x # xs) acc s = news_loop xs acc s"
      by (simp add: x seq_def try_except_def ret_def)
    obtain ns where ns: "news_loop xs acc s = (Inr (acc @ ns), s)"
      and sub: "subseq (map n_index ns) (map (\<lambda>x. Suc (fst x)) xs)"
      and src: "\<forall>n\<in>set ns. \<exists>i e. (i, e) \<in> set xs \<and> n_index n = Suc i
            \<and> (\<forall>s1. extract_news i e s1 = (Inr n, s1))"
      using Cons.IH [of acc] by blast
    have a: "news_loop (x # xs) acc s = (Inr (acc @ ns), s)"
      using step ns by simp
    have b: "subseq (map n_index ns) (map (\<lambda>x. Suc (fst x)) (x # xs))"
      using sub by (simp add: list_emb_Cons)
    have c: "\<forall>n\<in>set ns. \<exists>i e. (i, e) \<in> set (x # xs) \<and> n_index n = Suc i
            \<and> (\<forall>s1. extract_news i e s1 = (Inr n, s1))"
      using src by (metis list.set_intros(2))
    show ?thesis by (rule exI [of _ ns]) (intro conjI a b c)
  next
    case (ok n)
    then have step: "news_loop (x # xs) acc s = news_loop xs (acc @ [n]) s"
      by (simp add: x seq_def try_except_def ret_def)
    have idx: "n_index n = Suc i"
      using ok extract_news_index by blast
    obtain ns where ns: "news_loop xs (acc @ [n]) s = (Inr ((acc @ [n]) @ ns), s)"
      and sub: "subseq (map n_index ns) (map (\<lambda>x. Suc (fst x)) xs)"
      and src: "\<forall>n\<in>set ns. \<exists>i e. (i, e) \<in> set xs \<and> n_index n = Suc i
            \<and> (\<forall>s1. extract_news i e s1 = (Inr n, s1))"
      using Cons.IH [of "acc @ [n]"] by blast
    have a: "news_loop (x # xs) acc s = (Inr (acc @ n # ns), s)"
      using step ns by simp
    have b: "subseq (map n_index (n # ns)) (map (\<lambda>x. Suc (fst x)) (x # xs))"
      using sub idx by (simp add: x)
    have c: "\<forall>m\<in>set (n # ns). \<exists>i e. (i, e) \<in> set (x # xs) \<and> n_index m = Suc i
            \<and> (\<forall>s1. extract_news i e s1 = (Inr m, s1))"
    proof
      fix m assume "m \<in> set (n # ns)"
      then consider "m = n" | "m \<in> set ns" by auto
      then show "\<exists>i e. (i, e) \<in> set (x # xs) \<and> n_index m = Suc i
            \<and> (\<forall>s1. extract_news i e s1 = (Inr m, s1))"
      proof cases
        case 1
        then show ?thesis using ok idx x by auto
      next
        case 2
        then show ?thesis using src by (metis list.set_intros(2))
      qed
    qed
    show ?thesis by (rule exI [of _ "n # ns"]) (intro conjI a b c)
  qed
qed

lemma take_full_page_screenshot_cdp_current:
  "current (snd (take_full_page_screenshot_cdp w p s)) = current s"
  by (simp add: take_full_page_screenshot_cdp_def try_except_def seq_def record_call_def
      attempt_def write_file_def answer_def ret_def throw_def
      split: sum.splits option.splits prod.splits)

lemma save_screenshot_current: "current (snd (save_screenshot p s)) = current s"
  by (simp add: save_screenshot_def seq_def record_call_def split: sum.splits option.splits)

lemma screenshot_path_current: "current (snd (screenshot_path w code kind s)) = current s"
  by (simp add: screenshot_path_def seq_def now_def get_config_def Let_def split: option.splits)

lemma seq_current:
  assumes "\<And>s. current (snd (m s)) = current s" and "\<And>x s. current (snd (f x s)) = current s"
  shows "current (snd (seq m f s)) = current s"
proof (cases "m s")
  case (Pair r s1)
  have "current s1 = current s" using assms(1) [of s] Pair by simp
  then show ?thesis using Pair assms(2) by (cases r) (simp_all add: seq_def)
qed

lemma capture_full_page_current:
  "current (snd (capture_full_page w code kind s)) = current s"
  unfolding capture_full_page_def
  by (intro seq_current)
     (simp_all add: execute_script_def screenshot_path_current
       take_full_page_screenshot_cdp_current save_screenshot_current ret_def seq_current)

lemma driver_get_Inr:
  "driver_get w u s = (Inr x, s1) \<Longrightarrow> current s1 = pages w u \<and> get_result w u = None"
  by (auto simp: driver_get_def Let_def split: option.splits)

lemma loaded_page_items:
  assumes "seq (driver_get w u) (\<lambda>_. seq (capture_full_page w code kind) (\<lambda>_. m)) s = (Inr x, s')"
  obtains s1 where "m s1 = (Inr x, s')" and "current s1 = pages w u"
proof -
  from assms obtain a sa b sb where g: "driver_get w u s = (Inr a, sa)"
    and c: "capture_full_page w code kind sa = (Inr b, sb)" and f: "m sb = (Inr x, s')"
    by (elim seq_InrE)
  have "current sb = current sa" using capture_full_page_current [of w code kind sa] c by simp
  then have "current sb = pages w u" using driver_get_Inr [OF g] by simp
  then show ?thesis using f that by blast
qed

lemma upt_Suc_map: "map (\<lambda>x. Suc (fst x)) (List.enumerate 0 ys) = map Suc [0..<length ys]"
proof -
  have "map (\<lambda>x. Suc (fst x)) (List.enumerate 0 ys) = map Suc (map fst (List.enumerate 0 ys))"
    by (simp only: map_map comp_def)
  then show ?thesis by (simp only: map_fst_enumerate add_0)
qed

lemma sorted_map_Suc_upt: "sorted_wrt (<) (map Suc [0..<k])"
  by (simp add: sorted_wrt_map)

lemma get_news_announcements_spec:
  "\<exists>ns. fst (get_news_announcements w code s) = Inr ns
     \<and> (ns = [] \<or>
        (\<exists>items. pg_find (pages w (news_url code)) (CSS_SELECTOR, ''.tb_cont, .newsList li'') = Inr items
           \<and> subseq (map n_index ns) (map Suc [0..<length (take 20 items)])
           \<and> (\<forall>n\<in>set ns. \<exists>i. i < length (take 20 items) \<and> n_index n = Suc i
                  \<and> (\<forall>s1. extract_news i (items ! i) s1 = (Inr n, s1)))))"
proof -
  let ?loc = "(CSS_SELECTOR, ''.tb_cont, .newsList li'')"
  let ?pre = "seq (driver_get w (news_url code)) (\<lambda>_.
              seq (capture_full_page w code ''_news_cdp_full_'') (\<lambda>_. find_elements ?loc))"
  have unfold: "get_news_announcements w code =
      try_except (seq ?pre (\<lambda>news_items. news_loop (List.enumerate 0 (take 20 news_items)) []))
        (\<lambda>e. ret [])"
    unfolding get_news_announcements_def seq_assoc ..
  show ?thesis
  proof (cases "?pre s")
    case (Pair r s')
    show ?thesis
    proof (cases r)
      case (Inl e)
      then have "fst (get_news_announcements w code s) = Inr []"
        using Pair by (simp add: unfold try_except_def seq_def ret_def)
      then show ?thesis by simp
    next
      case (Inr items)
      obtain s1 where "find_elements ?loc s1 = (Inr items, s')" and "current s1 = pages w (news_url code)"
        using Pair Inr by (auto elim: loaded_page_items)
      then have it: "pg_find (pages w (news_url code)) ?loc = Inr items"
        by (auto simp: find_elements_def)
      obtain ns where l: "news_loop (List.enumerate 0 (take 20 items)) [] s' = (Inr ([] @ ns), s')"
        and sub: "subseq (map n_index ns) (map (\<lambda>x. Suc (fst x)) (List.enumerate 0 (take 20 items)))"
        and src: "\<forall>n\<in>set ns. \<exists>i e. (i, e) \<in> set (List.enumerate 0 (take 20 items)) \<and> n_index n = Suc i
            \<and> (\<forall>s1. extract_news i e s1 = (Inr n, s1))"
        using news_loop_spec [of "List.enumerate 0 (take 20 items)" "[]" s'] by blast
      have r: "fst (get_news_announcements w code s) = Inr ns"
        using Pair Inr l by (simp add: unfold try_except_def seq_def)
      have sub': "subseq (map n_index ns) (map Suc [0..<length (take 20 items)])"
        using sub unfolding upt_Suc_map .
      have src': "\<forall>n\<in>set ns. \<exists>i. i < length (take 20 items) \<and> n_index n = Suc i
                  \<and> (\<forall>s1. extract_news i (items ! i) s1 = (Inr n, s1))"
      proof
        fix n assume "n \<in> set ns"
        then obtain i e where ie: "(i, e) \<in> set (List.enumerate 0 (take 20 items))"
          "n_index n = Suc i" "\<forall>s1. extract_news i e s1 = (Inr n, s1)"
          using src by blast
        then have "i < length (take 20 items)" "e = take 20 items ! i"
          by (auto simp: in_set_enumerate_eq)
        moreover then have "e = items ! i" by simp
        ultimately have "i < length (take 20 items) \<and> n_index n = Suc i
                  \<and> (\<forall>s1. extract_news i (items ! i) s1 = (Inr n, s1))"
          using ie by simp
        then show "\<exists>i. i < length (take 20 items) \<and> n_index n = Suc i
                  \<and> (\<forall>s1. extract_news i (items ! i) s1 = (Inr n, s1))" ..
      qed
      show ?thesis using r it sub' src' by blast
    qed
  qed
qed

lemma extract_row_pure: "extract_row i cells s = (fst (extract_row i cells s'), s)"
  by (simp add: extract_row_def seq_def answer_def text_of_def ret_def split: sum.splits)

lemma extract_row_cases:
  obtains (ok) r where "\<forall>s. extract_row i cells s = (Inr r, s)"
  | (stop) err where "\<forall>s. extract_row i cells s = (Inl err, s)"
proof (cases "fst (extract_row i cells s0)")
  case (Inl err)
  have "\<forall>s. extract_row i cells s = (Inl err, s)"
    by (metis Inl extract_row_pure)
  then show ?thesis by (rule stop)
next
  case (Inr r)
  have "\<forall>s. extract_row i cells s = (Inr r, s)"
    by (metis Inr extract_row_pure)
  then show ?thesis by (rule ok)
qed

lemma text_of_Inr: "text_of el s = (Inr t, s') \<Longrightarrow> el_text el = Inr t"
  by (simp add: text_of_def answer_def)

lemma extract_row_fields:
  assumes "extract_row i cells s = (Inr r, s')"
  shows "\<exists>c0 c1 c2 c3 c4 c5.
           el_text (cells ! 0) = Inr c0 \<and> el_text (cells ! 1) = Inr c1
         \<and> el_text (cells ! 2) = Inr c2 \<and> el_text (cells ! 3) = Inr c3
         \<and> el_text (cells ! 4) = Inr c4 \<and> el_text (cells ! 5) = Inr c5
         \<and> r = \<lparr>f_date = strip c0, f_foreign_buy = strip c1, f_foreign_sell = strip c2,
                  f_institution_buy = strip c3, f_institution_sell = strip c4,
                  f_individual_volume = strip c5, f_index = Suc i\<rparr>"
  using assms unfolding extract_row_def
  by (elim seq_InrE) (auto simp: ret_def dest!: text_of_Inr)

lemma flow_source_Cons: "flow_source xs x \<Longrightarrow> flow_source (y # xs) x"
  unfolding flow_source_def by (metis list.set_intros(2))

lemma rows_loop_spec:
  "\<exists>rs r. rows_loop xs s = (r, s\<lparr>investor_data := investor_data s @ rs\<rparr>)
     \<and> subseq (map f_index rs) (map (\<lambda>x. Suc (fst x)) xs)
     \<and> (\<forall>x\<in>set rs. flow_source xs x)"
proof (induction xs arbitrary: s)
  case Nil
  show ?case by (rule exI [of _ "[]"], rule exI [of _ "Inr ()"]) (simp add: ret_def)
next
  case (Cons x xs)
  obtain i row where x: "x = (i, row)" by (cases x)
  have keep: "\<exists>rs r. rows_loop (x # xs) s = (r, s\<lparr>investor_data := investor_data s @ rs\<rparr>)
     \<and> subseq (map f_index rs) (map (\<lambda>x. Suc (fst x)) (x # xs))
     \<and> (\<forall>y\<in>set rs. flow_source (x # xs) y)"
    if "rows_loop (x # xs) s = rows_loop xs s"
  proof -
    obtain rs r where a: "rows_loop xs s = (r, s\<lparr>investor_data := investor_data s @ rs\<rparr>)"
      and b: "subseq (map f_index rs) (map (\<lambda>x. Suc (fst x)) xs)"
      and c: "\<forall>x\<in>set rs. flow_source xs x"
      using Cons.IH [of s] by blast
    have a': "rows_loop (x # xs) s = (r, s\<lparr>investor_data := investor_data s @ rs\<rparr>)"
      using that a by simp
    have b': "subseq (map f_index rs) (map (\<lambda>x. Suc (fst x)) (x # xs))"
      using b by (simp add: list_emb_Cons)
    have c': "\<forall>y\<in>set rs. flow_source (x # xs) y"
      using c flow_source_Cons by blast
    show ?thesis by (rule exI [of _ rs], rule exI [of _ r]) (intro conjI a' b' c')
  qed
  have stop: "\<exists>rs r. rows_loop (x # xs) s = (r, s\<lparr>investor_data := investor_data s @ rs\<rparr>)
     \<and> subseq (map f_index rs) (map (\<lambda>x. Suc (fst x)) (x # xs))
     \<and> (\<forall>y\<in>set rs. flow_source (x # xs) y)"
    if "rows_loop (x # xs) s = (Inl e, s)" for e
    by (rule exI [of _ "[]"], rule exI [of _ "Inl e"]) (simp add: that)
  show ?case
  proof (cases "el_find row (TAG_NAME, ''td'')")
    case (Inl e)
    then have "rows_loop (x # xs) s = (Inl e, s)"
      by (simp add: x seq_def find_elements_in_def answer_def)
    then show ?thesis by (rule stop)
  next
    case (Inr cells)
    show ?thesis
    proof (cases "6 \<le> length cells")
      case False
      then have "rows_loop (x # xs) s = rows_loop xs s"
        using Inr by (simp add: x seq_def find_elements_in_def answer_def ret_def)
      then show ?thesis by (rule keep)
    next
      case True
      show ?thesis
      proof (cases i cells rule: extract_row_cases)
        case (stop err)
        then have "rows_loop (x # xs) s = (Inl err, s)"
          using Inr True by (simp add: x seq_def find_elements_in_def answer_def)
        then show ?thesis by (rule \<open>\<And>e. rows_loop (x # xs) s = (Inl e, s) \<Longrightarrow> _\<close>)
      next
        case (ok r0)
        let ?s1 = "s\<lparr>investor_data := investor_data s @ [r0]\<rparr>"
        have step: "rows_loop (x # xs) s = rows_loop xs ?s1"
          using Inr True ok
          by (simp add: x seq_def find_elements_in_def answer_def append_row_def)
        obtain rs r where a: "rows_loop xs ?s1 = (r, ?s1\<lparr>investor_data := investor_data ?s1 @ rs\<rparr>)"
          and b: "subseq (map f_index rs) (map (\<lambda>x. Suc (fst x)) xs)"
          and c: "\<forall>x\<in>set rs. flow_source xs x"
          using Cons.IH [of ?s1] by blast
        have idx: "f_index r0 = Suc i"
          using ok extract_row_fields [of i cells s r0 s] by auto
        have a': "rows_loop (x # xs) s = (r, s\<lparr>investor_data := investor_data s @ r0 # rs\<rparr>)"
          using step a by simp
        have b': "subseq (map f_index (r0 # rs)) (map (\<lambda>x. Suc (fst x)) (x # xs))"
          using b idx by (simp add: x)
        have src0: "flow_source (x # xs) r0"
          unfolding flow_source_def using Inr True ok idx x by auto
        have c': "\<forall>y\<in>set (r0 # rs). flow_source (x # xs) y"
          using c src0 flow_source_Cons by auto
        show ?thesis by (rule exI [of _ "r0 # rs"], rule exI [of _ r]) (intro conjI a' b' c')
      qed
    qed
  qed
qed

lemma seq_keeps:
  assumes "\<And>s. g (snd (m s)) = g s" and "\<And>x s. g (snd (f x s)) = g s"
  shows "g (snd (seq m f s)) = g s"
proof (cases "m s")
  case (Pair r s1)
  have "g s1 = g s" using assms(1) [of s] Pair by simp
  then show ?thesis using Pair assms(2) by (cases r) (simp_all add: seq_def)
qed

lemma capture_full_page_investor_data:
  "investor_data (snd (capture_full_page w code kind s)) = investor_data s"
  unfolding capture_full_page_def
  apply (intro seq_keeps)
  apply (simp_all add: execute_script_def ret_def seq_keeps)
  apply (simp_all add: screenshot_path_def take_full_page_screenshot_cdp_def save_screenshot_def
      try_except_def seq_def now_def get_config_def record_call_def attempt_def write_file_def
      answer_def ret_def throw_def Let_def split: sum.splits option.splits prod.splits)
  done

lemma load_and_capture:
  assumes "seq (driver_get w u) (\<lambda>_. capture_full_page w code kind) s = (r, s1)"
  shows "investor_data s1 = investor_data s" and "r = Inr x \<Longrightarrow> current s1 = pages w u"
proof -
  obtain r0 s0 where g: "driver_get w u s = (r0, s0)" by (cases "driver_get w u s")
  have i0: "investor_data s0 = investor_data s"
    using g by (auto simp: driver_get_def Let_def split: option.splits)
  show "investor_data s1 = investor_data s"
  proof (cases r0)
    case (Inl e)
    then show ?thesis using assms g i0 by (simp add: seq_def)
  next
    case (Inr a)
    then have "capture_full_page w code kind s0 = (r, s1)" using assms g by (simp add: seq_def)
    then show ?thesis using capture_full_page_investor_data [of w code kind s0] i0 by simp
  qed
  show "current s1 = pages w u" if "r = Inr x"
  proof (cases r0)
    case (Inl e)
    then show ?thesis using assms g that by (simp add: seq_def)
  next
    case (Inr a)
    then have "capture_full_page w code kind s0 = (r, s1)" using assms g by (simp add: seq_def)
    then show ?thesis
      using capture_full_page_current [of w code kind s0] driver_get_Inr [of w u s a s0] g Inr
      by simp
  qed
qed

lemma nth_take_drop_1:
  assumes "i < length (take 10 (drop 1 trs))"
  shows "take 10 (drop 1 trs) ! i = trs ! Suc i"
proof -
  have i: "i < 10" "i < length trs - 1" using assms by simp_all
  then have "1 \<le> length trs" by arith
  then have "drop 1 trs ! i = trs ! (1 + i)" by (rule nth_drop)
  then show ?thesis using i by simp
qed

lemma table_block_spec:
  "\<exists>rs. table_block s = (Inr (), s\<lparr>investor_data := investor_data s @ rs\<rparr>)
     \<and> length rs \<le> 10
     \<and> sorted_wrt (<) (map f_index rs)
     \<and> (\<forall>x\<in>set rs. flow_from_table (current s) x)"
proof -
  let ?loc = "(CSS_SELECTOR, ''.type2, .tb_cont'')"
  let ?rows = "seq (find_element ?loc) (\<lambda>table. find_elements_in table (TAG_NAME, ''tr''))"
  have unfold: "table_block =
      try_except (seq ?rows (\<lambda>trs. rows_loop (List.enumerate 0 (take 10 (drop 1 trs)))))
        (\<lambda>table_error. ret ())"
    unfolding table_block_def seq_assoc ..
  have none: ?thesis if "table_block s = (Inr (), s)"
    by (rule exI [of _ "[]"]) (simp add: that)
  show ?thesis
  proof (cases "?rows s")
    case (Pair r s')
    have s': "s' = s" using Pair
      by (auto simp: seq_def find_element_def find_elements_def find_elements_in_def answer_def
          throw_def ret_def split: sum.splits list.splits)
    show ?thesis
    proof (cases r)
      case (Inl e)
      then have "table_block s = (Inr (), s)"
        using Pair s' by (simp add: unfold try_except_def seq_def ret_def)
      then show ?thesis by (rule none)
    next
      case (Inr trs)
      obtain table rest where tb: "pg_find (current s) ?loc = Inr (table # rest)"
        and tr: "el_find table (TAG_NAME, ''tr'') = Inr trs"
        using Pair Inr
        by (auto simp: seq_def find_element_def find_elements_def find_elements_in_def answer_def
            throw_def ret_def split: sum.splits list.splits)
      let ?xs = "List.enumerate 0 (take 10 (drop 1 trs))"
      obtain rs r1 where a: "rows_loop ?xs s = (r1, s\<lparr>investor_data := investor_data s @ rs\<rparr>)"
        and b: "subseq (map f_index rs) (map (\<lambda>x. Suc (fst x)) ?xs)"
        and c: "\<forall>x\<in>set rs. flow_source ?xs x"
        using rows_loop_spec [of ?xs s] by blast
      have res: "table_block s = (Inr (), s\<lparr>investor_data := investor_data s @ rs\<rparr>)"
        using Pair Inr s' a by (cases r1) (simp_all add: unfold try_except_def seq_def ret_def)
      have b': "subseq (map f_index rs) (map Suc [0..<length (take 10 (drop 1 trs))])"
        using b unfolding upt_Suc_map .
      have len: "length rs \<le> 10"
        using list_emb_length [OF b'] by simp
      have srt: "sorted_wrt (<) (map f_index rs)"
        using sorted_wrt_subseq [OF b' sorted_map_Suc_upt] .
      have src: "\<forall>x\<in>set rs. flow_from_table (current s) x"
      proof
        fix x assume "x \<in> set rs"
        then obtain i row cells where ir: "(i, row) \<in> set ?xs" and ix: "f_index x = Suc i"
          and cells: "el_find row (TAG_NAME, ''td'') = Inr cells" "6 \<le> length cells"
          and ex: "\<forall>s1. extract_row i cells s1 = (Inr x, s1)"
          using c unfolding flow_source_def by blast
        have il: "i < length (take 10 (drop 1 trs))" and row: "row = take 10 (drop 1 trs) ! i"
          using ir by (auto simp: in_set_enumerate_eq)
        have row': "row = trs ! Suc i" using row nth_take_drop_1 [OF il] by simp
        have "Suc i \<le> 10" "Suc i < length trs" using il by auto
        then show "flow_from_table (current s) x"
          unfolding flow_from_table_def using tb tr ix cells ex row' by auto
      qed
      show ?thesis by (rule exI [of _ rs]) (intro conjI res len srt src)
    qed
  qed
qed

lemma get_investor_trends_spec:
  "\<exists>rs. fst (get_investor_trends w code s) = Inr rs
     \<and> length rs \<le> 10
     \<and> sorted_wrt (<) (map f_index rs)
     \<and> (\<forall>x\<in>set rs. flow_from_table (pages w (frgn_url code)) x)"
proof -
  let ?s0 = "s\<lparr>investor_data := []\<rparr>"
  let ?pre = "seq (driver_get w (frgn_url code)) (\<lambda>_.
                capture_full_page w code ''_investor_trends_cdp_full_'')"
  have unfold: "get_investor_trends w code s =
      seq (try_except (seq ?pre (\<lambda>_. table_block)) (\<lambda>e. ret ()))
        (\<lambda>_. (\<lambda>s. (Inr (investor_data s), s))) ?s0"
    unfolding get_investor_trends_def seq_assoc by (simp add: seq_def)
  have none: ?thesis if "fst (get_investor_trends w code s) = Inr []"
    by (rule exI [of _ "[]"]) (simp add: that)
  show ?thesis
  proof (cases "?pre ?s0")
    case (Pair r s1)
    have i1: "investor_data s1 = []" using load_and_capture(1) [OF Pair] by simp
    show ?thesis
    proof (cases r)
      case (Inl e)
      then have "fst (get_investor_trends w code s) = Inr []"
        using Pair i1 by (simp add: unfold try_except_def seq_def ret_def)
      then show ?thesis by (rule none)
    next
      case (Inr u)
      have c1: "current s1 = pages w (frgn_url code)"
        using load_and_capture(2) [OF Pair Inr] .
      obtain rs where t: "table_block s1 = (Inr (), s1\<lparr>investor_data := investor_data s1 @ rs\<rparr>)"
        and len: "length rs \<le> 10" and srt: "sorted_wrt (<) (map f_index rs)"
        and src: "\<forall>x\<in>set rs. flow_from_table (current s1) x"
        using table_block_spec [of s1] by blast
      have res: "fst (get_investor_trends w code s) = Inr rs"
        using Pair Inr t i1 by (simp add: unfold try_except_def seq_def)
      have src': "\<forall>x\<in>set rs. flow_from_table (pages w (frgn_url code)) x"
        using src c1 by simp
      show ?thesis by (rule exI [of _ rs]) (intro conjI res len srt src')
    qed
  qed
qed

lemma get_news_announcements_limits:
  "\<exists>ns. fst (get_news_announcements w code s) = Inr ns
     \<and> length ns \<le> 20 \<and> sorted_wrt (<) (map n_index ns)
     \<and> (\<forall>n\<in>set ns. news_from_list (pages w (news_url code)) n)"
proof -
  obtain ns where r: "fst (get_news_announcements w code s) = Inr ns"
    and d: "ns = [] \<or>
        (\<exists>items. pg_find (pages w (news_url code)) (CSS_SELECTOR, ''.tb_cont, .newsList li'') = Inr items
           \<and> subseq (map n_index ns) (map Suc [0..<length (take 20 items)])
           \<and> (\<forall>n\<in>set ns. \<exists>i. i < length (take 20 items) \<and> n_index n = Suc i
                  \<and> (\<forall>s1. extract_news i (items ! i) s1 = (Inr n, s1))))"
    using get_news_announcements_spec [of w code s] by blast
  show ?thesis
  proof (cases "ns = []")
    case True
    show ?thesis by (rule exI [of _ ns]) (simp add: r True)
  next
    case False
    then obtain items
      where it: "pg_find (pages w (news_url code)) (CSS_SELECTOR, ''.tb_cont, .newsList li'') = Inr items"
        and sub: "subseq (map n_index ns) (map Suc [0..<length (take 20 items)])"
        and src: "\<forall>n\<in>set ns. \<exists>i. i < length (take 20 items) \<and> n_index n = Suc i
                  \<and> (\<forall>s1. extract_news i (items ! i) s1 = (Inr n, s1))"
      using d by blast
    have len: "length ns \<le> 20" using list_emb_length [OF sub] by simp
    have srt: "sorted_wrt (<) (map n_index ns)"
      using sorted_wrt_subseq [OF sub sorted_map_Suc_upt] .
    have org: "\<forall>n\<in>set ns. news_from_list (pages w (news_url code)) n"
    proof
      fix n assume "n \<in> set ns"
      then obtain i where "i < length (take 20 items)" "n_index n = Suc i"
        "\<forall>s1. extract_news i (items ! i) s1 = (Inr n, s1)"
        using src by blast
      then show "news_from_list (pages w (news_url code)) n"
        unfolding news_from_list_def using it by auto
    qed
    show ?thesis by (rule exI [of _ ns]) (intro conjI r len srt org)
  qed
qed

lemma flow_from_table_cells: "flow_from_table pg x \<Longrightarrow> flow_from_cells pg x"
proof -
  assume "flow_from_table pg x"
  then obtain table rest trs cells
    where a: "pg_find pg (CSS_SELECTOR, ''.type2, .tb_cont'') = Inr (table # rest)"
      "el_find table (TAG_NAME, ''tr'') = Inr trs"
      "0 < f_index x" "f_index x < length trs"
      "el_find (trs ! f_index x) (TAG_NAME, ''td'') = Inr cells" "6 \<le> length cells"
      and ex: "\<forall>s1. extract_row (f_index x - 1) cells s1 = (Inr x, s1)"
    unfolding flow_from_table_def by blast
  obtain c0 c1 c2 c3 c4 c5 where c: "el_text (cells ! 0) = Inr c0" "el_text (cells ! 1) = Inr c1"
      "el_text (cells ! 2) = Inr c2" "el_text (cells ! 3) = Inr c3"
      "el_text (cells ! 4) = Inr c4" "el_text (cells ! 5) = Inr c5"
      and x: "x = \<lparr>f_date = strip c0, f_foreign_buy = strip c1, f_foreign_sell = strip c2,
                  f_institution_buy = strip c3, f_institution_sell = strip c4,
                  f_individual_volume = strip c5, f_index = Suc (f_index x - 1)\<rparr>"
    using extract_row_fields [of "f_index x - 1" cells s x s] ex by blast
  have "Suc (f_index x - 1) = f_index x" using a(3) by simp
  then have x': "x = \<lparr>f_date = strip c0, f_foreign_buy = strip c1, f_foreign_sell = strip c2,
                  f_institution_buy = strip c3, f_institution_sell = strip c4,
                  f_individual_volume = strip c5, f_index = f_index x\<rparr>"
    using x by simp
  show "flow_from_cells pg x"
    unfolding flow_from_cells_def using a c x' by blast
qed

lemma rows_loop_skips_short_row:
  "el_find row (TAG_NAME, ''td'') = Inr cells \<Longrightarrow> length cells < 6 \<Longrightarrow>
     rows_loop ((i, row) # rest) = rows_loop rest"
  by (rule ext) (simp add: seq_def find_elements_in_def answer_def ret_def)

lemma demo_news_run:
  "fst (get_news_announcements demo_world ''005930'' demo_ready) = Inr demo_news"
  by (simp add: eval_defs demo_ready_def demo_news_def demo_record_def)

lemma demo_flows_run:
  "fst (get_investor_trends demo_world ''005930'' demo_ready) = Inr demo_flows"
  by (simp add: eval_defs demo_ready_def demo_flows_def demo_record_def)

lemma description_loop_state: "description_loop es acc s = (r, s') \<Longrightarrow> s' = s"
proof (induction es arbitrary: acc)
  case Nil
  then show ?case by (simp add: ret_def)
next
  case (Cons e es)
  then show ?case
    by (cases "el_text e") (auto simp: seq_def text_of_def answer_def Let_def)
qed

lemma company_description_block_effect:
  "\<exists>d. company_description_block s =
         (Inr (), s\<lparr>basic_info := (basic_info s)(''company_description'' \<mapsto> d)\<rparr>)"
  unfolding company_description_block_def
  by (auto simp: try_except_def seq_def find_element_def find_elements_def execute_script_def
      set_info_def ret_def throw_def
      split: prod.splits sum.splits list.splits dest!: description_loop_state)

lemma company_description_block_eq:
  "company_description_block s =
     (Inr (), s\<lparr>basic_info := (basic_info s)(''company_description'' \<mapsto> description_of s)\<rparr>)"
proof -
  obtain d where d: "company_description_block s =
         (Inr (), s\<lparr>basic_info := (basic_info s)(''company_description'' \<mapsto> d)\<rparr>)"
    using company_description_block_effect by blast
  then have "description_of s = d" by (simp add: description_of_def)
  then show ?thesis using d by simp
qed

lemma get_basic_info_name_missing:
  assumes "lookup_fails (current s) (CSS_SELECTOR, ''.wrap_company h2 a'')"
  shows "fst (get_basic_info s) = Inr [''stock_name'' \<mapsto> title_name (pg_title (current s))]"
  using assms
  by (auto simp: get_basic_info_def name_from_title_def lookup_fails_def title_name_def
      try_except_def seq_def find_element_def find_elements_def driver_title_def set_info_def
      ret_def throw_def split: sum.splits list.splits)

lemma get_basic_info_all_present:
  assumes "pg_find (current s) (CSS_SELECTOR, ''.wrap_company h2 a'') = Inr (en # ens)"
    and "el_text en = Inr n"
    and "pg_find (current s) (CSS_SELECTOR, ''.wrap_company .description .code'') = Inr (ec # ecs)"
    and "el_text ec = Inr c"
    and "pg_find (current s) (CSS_SELECTOR, ''.today .no_today em'') = Inr (ep # eps)"
    and "el_text ep = Inr p"
    and "pg_find (current s) (CSS_SELECTOR, ''.today .no_exday em'') = Inr ces"
    and "2 \<le> length ces \<longrightarrow> el_text (ces ! 0) = Inr t0 \<and> el_text (ces ! 1) = Inr t1"
  shows "\<exists>m. fst (get_basic_info s) = Inr m
           \<and> m ''stock_name'' = Some (strip n) \<and> m ''stock_code'' = Some (strip c)
           \<and> m ''current_price'' = Some (remove_commas (strip p))
           \<and> m ''price_change'' = (if 2 \<le> length ces then Some (remove_commas (strip t0)) else None)
           \<and> m ''change_rate'' = (if 2 \<le> length ces then Some (strip t1) else None)
           \<and> m ''company_description'' \<noteq> None"
  using assms
  by (simp add: get_basic_info_def company_description_block_eq
      try_except_def seq_def find_element_def find_elements_def text_of_def answer_def
      set_info_def ret_def)

lemma no_raise_take_full_page_screenshot_cdp: "no_raise (take_full_page_screenshot_cdp w p)"
  unfolding take_full_page_screenshot_cdp_def by (intro no_raise_try_except) simp

lemma take_full_page_screenshot_cdp_calls:
  "calls (snd (take_full_page_screenshot_cdp w p s)) = calls s @ [Cdp p]"
  by (simp add: take_full_page_screenshot_cdp_def try_except_def seq_def record_call_def
      attempt_def write_file_def answer_def ret_def throw_def
      split: sum.splits option.splits prod.splits)

lemma take_full_page_screenshot_cdp_effect:
  "\<exists>b s'. take_full_page_screenshot_cdp w p s = (Inr b, s')
     \<and> calls s' = calls s @ [Cdp p] \<and> current s' = current s"
proof -
  obtain b s' where r: "take_full_page_screenshot_cdp w p s = (Inr b, s')"
    using no_raiseD [OF no_raise_take_full_page_screenshot_cdp] by blast
  have "calls s' = calls s @ [Cdp p]"
    using take_full_page_screenshot_cdp_calls [of w p s] r by simp
  moreover have "current s' = current s"
    using take_full_page_screenshot_cdp_current [of w p s] r by simp
  ultimately show ?thesis using r by blast
qed

lemma capture_full_page_trace:
  assumes "pg_script (current s) ScrollToTop = Inr v"
    and "current_stock_screenshot_dir s = Some dir"
    and "p = join_path dir (code @ kind @ strftime w ''%Y%m%d_%H%M%S'' (tick s) @ ''.''
            @ screenshot_format (config s))"
  shows "cdp_succeeds w p (s\<lparr>tick := Suc (tick s)\<rparr>) \<Longrightarrow>
           calls (snd (capture_full_page w code kind s)) = calls s @ [Cdp p]"
    and "\<not> cdp_succeeds w p (s\<lparr>tick := Suc (tick s)\<rparr>) \<Longrightarrow>
           calls (snd (capture_full_page w code kind s)) = calls s @ [Cdp p, SaveScreenshot p]"
    and "\<not> cdp_succeeds w p (s\<lparr>tick := Suc (tick s)\<rparr>) \<Longrightarrow>
           pg_save_screenshot (current s) = Inr (Some png) \<Longrightarrow>
           fs (snd (capture_full_page w code kind s)) p = Some png"
proof -
  let ?s1 = "s\<lparr>tick := Suc (tick s)\<rparr>"
  have path: "screenshot_path w code kind s = (Inr p, ?s1)"
    using assms(2,3) by (simp add: screenshot_path_def seq_def now_def get_config_def Let_def)
  obtain b s2 where cdp: "take_full_page_screenshot_cdp w p ?s1 = (Inr b, s2)"
    and c2: "calls s2 = calls s @ [Cdp p]" and p2: "current s2 = current s"
    using take_full_page_screenshot_cdp_effect [of w p ?s1] by auto
  have run: "capture_full_page w code kind s =
      (if b then (Inr (), s2) else seq (save_screenshot p) (\<lambda>_. ret ()) s2)"
    using assms(1) path cdp
    by (simp add: capture_full_page_def seq_def execute_script_def ret_def)
  have ok: "cdp_succeeds w p ?s1 \<longleftrightarrow> b" using cdp by (simp add: cdp_succeeds_def)
  show "cdp_succeeds w p ?s1 \<Longrightarrow> calls (snd (capture_full_page w code kind s)) = calls s @ [Cdp p]"
    using run ok c2 by simp
  show "\<not> cdp_succeeds w p ?s1 \<Longrightarrow>
          calls (snd (capture_full_page w code kind s)) = calls s @ [Cdp p, SaveScreenshot p]"
    using run ok c2
    by (simp add: seq_def save_screenshot_def record_call_def ret_def
        split: sum.splits option.splits)
  show "\<not> cdp_succeeds w p ?s1 \<Longrightarrow> pg_save_screenshot (current s) = Inr (Some png) \<Longrightarrow>
          fs (snd (capture_full_page w code kind s)) p = Some png"
    using run ok p2
    by (simp add: seq_def save_screenshot_def record_call_def ret_def)
qed

lemma news_list_state:
  "snd (seq (find_elements loc) (\<lambda>news_items. news_loop (List.enumerate 0 (take 20 news_items)) []) s) = s"
proof (cases "pg_find (current s) loc")
  case (Inl e)
  then show ?thesis by (simp add: seq_def find_elements_def)
next
  case (Inr items)
  obtain ns where "news_loop (List.enumerate 0 (take 20 items)) [] s = (Inr ([] @ ns), s)"
    using news_loop_spec [of "List.enumerate 0 (take 20 items)" "[]" s] by blast
  then show ?thesis using Inr by (simp add: seq_def find_elements_def)
qed

lemma get_news_announcements_state:
  assumes "get_result w (news_url code) = None"
  shows "snd (get_news_announcements w code s) =
         snd (capture_full_page w code ''_news_cdp_full_''
               (s\<lparr>calls := calls s @ [Get (news_url code)], current := pages w (news_url code)\<rparr>))"
proof -
  let ?sa = "s\<lparr>calls := calls s @ [Get (news_url code)], current := pages w (news_url code)\<rparr>"
  let ?rest = "seq (find_elements (CSS_SELECTOR, ''.tb_cont, .newsList li''))
      (\<lambda>news_items. news_loop (List.enumerate 0 (take 20 news_items)) [])"
  have g: "driver_get w (news_url code) s = (Inr (), ?sa)"
    using assms by (simp add: driver_get_def Let_def)
  obtain rc sb where c: "capture_full_page w code ''_news_cdp_full_'' ?sa = (rc, sb)"
    by (cases "capture_full_page w code ''_news_cdp_full_'' ?sa")
  have unfold: "get_news_announcements w code =
      try_except (seq (driver_get w (news_url code)) (\<lambda>_.
        seq (capture_full_page w code ''_news_cdp_full_'') (\<lambda>_. ?rest))) (\<lambda>e. ret [])"
    unfolding get_news_announcements_def ..
  show ?thesis
  proof (cases rc)
    case (Inl e)
    then show ?thesis using g c by (simp add: unfold try_except_def seq_def ret_def)
  next
    case (Inr u)
    have "snd (?rest sb) = sb" by (rule news_list_state)
    then show ?thesis using g c Inr
      by (cases "?rest sb") (auto simp: unfold try_except_def seq_def ret_def split: sum.splits)
  qed
qed

lemma cdp_failed_fs:
  "\<not> cdp_succeeds w p s \<Longrightarrow>
     fs (snd (take_full_page_screenshot_cdp w p s))
       = (if cdp_opens_file w p s then (fs s)(p \<mapsto> []) else fs s)"
  by (auto simp: cdp_succeeds_def cdp_opens_file_def take_full_page_screenshot_cdp_def
      try_except_def seq_def record_call_def attempt_def write_file_def answer_def ret_def
      throw_def split: sum.splits option.splits prod.splits)

lemma cdp_success_fs:
  "cdp_succeeds w p s \<Longrightarrow>
     \<exists>d bytes. pg_cdp_capture (current s) = Inr (Some d) \<and> b64decode w d = Inr bytes
       \<and> fs (snd (take_full_page_screenshot_cdp w p s)) p = Some bytes"
  by (auto simp: cdp_succeeds_def take_full_page_screenshot_cdp_def
      try_except_def seq_def record_call_def attempt_def write_file_def answer_def ret_def
      throw_def split: sum.splits option.splits prod.splits)

lemma capture_full_page_files:
  assumes "pg_script (current s) ScrollToTop = Inr v"
    and "current_stock_screenshot_dir s = Some dir"
    and "p = join_path dir (code @ kind @ strftime w ''%Y%m%d_%H%M%S'' (tick s) @ ''.''
            @ screenshot_format (config s))"
  shows "cdp_succeeds w p (s\<lparr>tick := Suc (tick s)\<rparr>) \<Longrightarrow>
           fs (snd (capture_full_page w code kind s))
             = fs (snd (take_full_page_screenshot_cdp w p (s\<lparr>tick := Suc (tick s)\<rparr>)))"
    and "\<not> cdp_succeeds w p (s\<lparr>tick := Suc (tick s)\<rparr>) \<Longrightarrow>
           pg_save_screenshot (current s) = Inl e \<Longrightarrow>
           fst (capture_full_page w code kind s) = Inl e
           \<and> fs (snd (capture_full_page w code kind s))
               = fs (snd (take_full_page_screenshot_cdp w p (s\<lparr>tick := Suc (tick s)\<rparr>)))"
    and "\<not> cdp_succeeds w p (s\<lparr>tick := Suc (tick s)\<rparr>) \<Longrightarrow>
           pg_save_screenshot (current s) = Inr None \<Longrightarrow>
           fs (snd (capture_full_page w code kind s))
             = fs (snd (take_full_page_screenshot_cdp w p (s\<lparr>tick := Suc (tick s)\<rparr>)))"
proof -
  let ?s1 = "s\<lparr>tick := Suc (tick s)\<rparr>"
  have path: "screenshot_path w code kind s = (Inr p, ?s1)"
    using assms(2,3) by (simp add: screenshot_path_def seq_def now_def get_config_def Let_def)
  obtain b s2 where cdp: "take_full_page_screenshot_cdp w p ?s1 = (Inr b, s2)"
    and p2: "current s2 = current s"
    using take_full_page_screenshot_cdp_effect [of w p ?s1] by auto
  have run: "capture_full_page w code kind s =
      (if b then (Inr (), s2) else seq (save_screenshot p) (\<lambda>_. ret ()) s2)"
    using assms(1) path cdp
    by (simp add: capture_full_page_def seq_def execute_script_def ret_def)
  have ok: "cdp_succeeds w p ?s1 \<longleftrightarrow> b" using cdp by (simp add: cdp_succeeds_def)
  show "cdp_succeeds w p ?s1 \<Longrightarrow>
          fs (snd (capture_full_page w code kind s)) = fs (snd (take_full_page_screenshot_cdp w p ?s1))"
    using run ok cdp by simp
  show "\<not> cdp_succeeds w p ?s1 \<Longrightarrow> pg_save_screenshot (current s) = Inl e \<Longrightarrow>
          fst (capture_full_page w code kind s) = Inl e
          \<and> fs (snd (capture_full_page w code kind s)) = fs (snd (take_full_page_screenshot_cdp w p ?s1))"
    using run ok cdp p2
    by (simp add: seq_def save_screenshot_def record_call_def ret_def)
  show "\<not> cdp_succeeds w p ?s1 \<Longrightarrow> pg_save_screenshot (current s) = Inr None \<Longrightarrow>
          fs (snd (capture_full_page w code kind s)) = fs (snd (take_full_page_screenshot_cdp w p ?s1))"
    using run ok cdp p2
    by (simp add: seq_def save_screenshot_def record_call_def ret_def)
qed

lemma get_news_announcements_capture_raises:
  assumes "get_result w (news_url code) = None"
    and "fst (capture_full_page w code ''_news_cdp_full_''
               (s\<lparr>calls := calls s @ [Get (news_url code)], current := pages w (news_url code)\<rparr>)) = Inl e"
  shows "fst (get_news_announcements w code s) = Inr []"
proof -
  let ?sa = "s\<lparr>calls := calls s @ [Get (news_url code)], current := pages w (news_url code)\<rparr>"
  have g: "driver_get w (news_url code) s = (Inr (), ?sa)"
    using assms(1) by (simp add: driver_get_def Let_def)
  obtain sb where c: "capture_full_page w code ''_news_cdp_full_'' ?sa = (Inl e, sb)"
    using assms(2) by (cases "capture_full_page w code ''_news_cdp_full_'' ?sa") simp
  show ?thesis using g c
    by (simp add: get_news_announcements_def try_except_def seq_def ret_def)
qed

lemma stage_get_first:
  assumes "\<And>x. framed (f x)" and "\<And>e. framed (h e)"
  shows "\<exists>t. calls (snd (try_except (seq (driver_get w u) f) h s)) = calls s @ Get u # t"
proof -
  obtain r sa where g: "driver_get w u s = (r, sa)" by (cases "driver_get w u s")
  have ca: "calls sa = calls s @ [Get u]"
    using g by (auto simp: driver_get_def Let_def split: option.splits)
  have eq: "try_except (seq (driver_get w u) f) h s = try_except (seq (answer r) f) h sa"
    using g by (simp add: try_except_def seq_def answer_def)
  have "framed (try_except (seq (answer r) f) h)"
    using assms by (intro framed_try_except framed_seq) simp_all
  then have "frame sa (snd (try_except (seq (answer r) f) h sa))" by (rule framedD)
  then obtain t where "calls (snd (try_except (seq (answer r) f) h sa)) = calls sa @ t"
    by (auto simp: frame_def)
  then show ?thesis using eq ca by simp
qed

lemma capture_company_analysis_get:
  "\<exists>t. calls (snd (capture_company_analysis w code s)) = calls s @ Get (coinfo_url code) # t"
  unfolding capture_company_analysis_def
  by (rule stage_get_first) (intro framed_try_except, simp_all)

lemma get_news_announcements_get:
  "\<exists>t. calls (snd (get_news_announcements w code s)) = calls s @ Get (news_url code) # t"
  unfolding get_news_announcements_def
  by (rule stage_get_first) (intro framed_seq, simp_all)

lemma capture_advanced_charts_get:
  "\<exists>t. calls (snd (capture_advanced_charts w code s)) = calls s @ Get (fchart_url code) # t"
  unfolding capture_advanced_charts_def
  by (rule stage_get_first) (intro framed_seq, simp_all)

lemma seq_read_state: "snd (seq m (\<lambda>_ s. (Inr (g s), s)) s) = snd (m s)"
  by (simp add: seq_def split: prod.splits sum.splits)

lemma get_investor_trends_get:
  "\<exists>t. calls (snd (get_investor_trends w code s)) = calls s @ Get (frgn_url code) # t"
proof -
  let ?s0 = "s\<lparr>investor_data := []\<rparr>"
  let ?m = "try_except
            (seq (driver_get w (frgn_url code)) (\<lambda>_.
             seq (capture_full_page w code ''_investor_trends_cdp_full_'') (\<lambda>_.
             table_block)))
            (\<lambda>e. ret ())"
  have "get_investor_trends w code s = seq ?m (\<lambda>_ s. (Inr (investor_data s), s)) ?s0"
    by (simp add: get_investor_trends_def seq_def)
  then have st: "snd (get_investor_trends w code s) = snd (?m ?s0)"
    by (simp only: seq_read_state)
  obtain t where "calls (snd (?m ?s0)) = calls ?s0 @ Get (frgn_url code) # t"
    using stage_get_first [of "\<lambda>_. seq (capture_full_page w code ''_investor_trends_cdp_full_'') (\<lambda>_. table_block)"
        "\<lambda>e. ret ()" w "frgn_url code" ?s0]
    by (auto intro!: framed_seq)
  then show ?thesis using st by simp
qed

lemma analysis_fallback:
  assumes "get_result w (coinfo_url code) = None"
    and "lookup_fails (pages w (coinfo_url code)) (XPATH, iframe_xpath)"
  shows "capture_company_analysis w code s =
         try_except (plain_page_capture w code) (\<lambda>e. ret Map.empty)
           (s\<lparr>calls := calls s @ [Get (coinfo_url code)], current := pages w (coinfo_url code)\<rparr>)"
  using assms
  by (auto simp: capture_company_analysis_def iframe_capture_def driver_get_def lookup_fails_def
      try_except_def seq_def find_element_def find_elements_def throw_def ret_def Let_def
      split: sum.splits list.splits prod.splits)

lemma plain_page_capture_trace:
  assumes "pg_script (current s) BodyScrollHeight = Inr h"
    and "pg_window_size (current s) = Inr sz"
    and "pg_set_window_size (current s) (1920, h) = None"
    and "current_stock_screenshot_dir s = Some dir"
  shows "calls (snd (try_except (plain_page_capture w code) (\<lambda>e. ret Map.empty) s)) =
         calls s @ [SaveScreenshot (join_path dir (code @ ''_company_analysis_fallback_''
            @ strftime w ''%Y%m%d_%H%M%S'' (tick s) @ ''.'' @ screenshot_format (config s)))]"
  using assms
  by (simp add: plain_page_capture_def try_except_def seq_def execute_script_def
      get_window_size_def set_window_size_def attempt_def screenshot_path_def now_def
      get_config_def save_screenshot_def record_call_def ret_def Let_def
      split: sum.splits option.splits prod.splits)

lemma after_overview_stages:
  assumes "get_basic_info s1 = (Inr info, s2)"
    and "capture_company_analysis w code s2 = (Inr an, s3)"
    and "get_news_announcements w code s3 = (Inr news, s4)"
    and "get_investor_trends w code s4 = (Inr tr, s5)"
    and "capture_advanced_charts w code s5 = (Inr ch, s6)"
  shows "calls (snd (after_overview w code s1)) = calls s6"
  using assms by (simp add: after_overview_def seq_def now_def ret_def)

lemma demo_calls:
  "calls (snd (collect_stock_data demo_world ''005930'' demo_state)) =
     [Launch, Get ''https://finance.naver.com/item/main.naver?code=005930'',
      Get (coinfo_url ''005930''),
      SaveScreenshot ''screenshots/005930_T/005930_company_analysis_fallback_T.png'',
      Get (news_url ''005930''),
      Cdp ''screenshots/005930_T/005930_news_cdp_full_T.png'',
      SaveScreenshot ''screenshots/005930_T/005930_news_cdp_full_T.png'',
      Get (frgn_url ''005930''),
      Cdp ''screenshots/005930_T/005930_investor_trends_cdp_full_T.png'',
      SaveScreenshot ''screenshots/005930_T/005930_investor_trends_cdp_full_T.png'',
      Get (fchart_url ''005930'')]"
  by (simp add: eval_defs)

lemma demo_reach: "fst (reach_overview demo_world ''005930'' demo_state) = Inr True"
  using collect_Some_iff [of demo_world "''005930''" demo_state] demo_run by simp

section \<open>The claims\<close>

text \<open>
  \<^bold>\<open>C8\<close>. For every target identifier, a successful \<^verbatim>\<open>collect_stock_data\<close> call returns a
  record whose \<open>stock_code\<close> field equals the input identifier exactly. The theorem
  holds for every behaviour of the site and every state of the collector.
\<close>

theorem collect_returns_input_code:
  "fst (collect_stock_data w code s) = Inr (Some r) \<Longrightarrow> stock_code r = code"
  using collect_record by blast

theorem collect_returns_input_code_witness:
  "fst (collect_stock_data demo_world ''005930'' demo_state) = Inr (Some demo_record)
   \<and> stock_code demo_record = ''005930''"
proof -
  have h: "fst (collect_stock_data demo_world ''005930'' demo_state) = Inr (Some demo_record)"
    by (rule demo_run)
  from collect_returns_input_code [OF h] h show ?thesis by simp
qed

text \<open>
  \<^bold>\<open>C10\<close>. Every record returned by \<^verbatim>\<open>collect_stock_data\<close> has \<open>related_themes\<close> equal to
  the empty list, whatever themes the pages show, although the extractor
  \<^verbatim>\<open>_get_related_themes\<close> exists, never raises and returns its themes without
  duplicates. In the example the overview page lists the themes AI, AI and Chips:
  the extractor returns AI and Chips, the record none.
\<close>

theorem related_themes_always_empty:
  "fst (collect_stock_data w code s) = Inr (Some r) \<Longrightarrow>
     related_themes r = [] \<and> (\<exists>ts. fst (get_related_themes s1) = Inr ts \<and> distinct ts)"
  using collect_record get_related_themes_distinct by blast

theorem related_themes_always_empty_witness:
  "fst (collect_stock_data demo_world ''005930'' demo_state) = Inr (Some demo_record)
   \<and> related_themes demo_record = []
   \<and> fst (get_related_themes (demo_state\<lparr>current := overview_page\<rparr>)) = Inr [''AI'', ''Chips'']"
proof -
  have h: "fst (collect_stock_data demo_world ''005930'' demo_state) = Inr (Some demo_record)"
    by (rule demo_run)
  have t: "fst (get_related_themes (demo_state\<lparr>current := overview_page\<rparr>)) = Inr [''AI'', ''Chips'']"
    by (simp add: eval_defs)
  from related_themes_always_empty [OF h, of "demo_state\<lparr>current := overview_page\<rparr>"] h t
  show ?thesis by simp
qed

text \<open>
  \<^bold>\<open>C9\<close>. \<^verbatim>\<open>save_data_to_json\<close> called without a file path is meant to derive a path
  from the stock code and a time stamp, write the JSON there and return the path.
  The code reads \<^verbatim>\<open>self.screenshot_dir\<close>, an attribute that \<^verbatim>\<open>__init__\<close> and every method
  leave unset: on a fresh collector, and on a collector after any collection run, the
  call raises AttributeError and writes no file.
\<close>

theorem save_data_to_json_default_path_raises:
  "fst (save_data_to_json w sd None (new_collector cfg pg files)) = Inl AttributeError
   \<and> fst (save_data_to_json w sd None (snd (collect_stock_data w' code (new_collector cfg pg files))))
       = Inl AttributeError
   \<and> fs (snd (save_data_to_json w sd None (snd (collect_stock_data w' code (new_collector cfg pg files)))))
       = fs (snd (collect_stock_data w' code (new_collector cfg pg files)))"
proof -
  have a: "screenshot_dir (new_collector cfg pg files) = None"
    by (simp add: new_collector_def)
  then have b: "screenshot_dir (snd (collect_stock_data w' code (new_collector cfg pg files))) = None"
    by (simp add: collect_screenshot_dir)
  show ?thesis
    using save_data_to_json_None [OF a, of w sd] save_data_to_json_None [OF b, of w sd] by simp
qed

text \<open>
  \<^bold>\<open>C1\<close>. The claim that \<^verbatim>\<open>collect_stock_data\<close> releases the browser session on
  every exit path fails on the path that returns a record: in the example run the
  record is returned, the driver is still running and \<^verbatim>\<open>quit\<close> was never called.
\<close>

theorem session_left_open_counterexample:
  "fst (collect_stock_data demo_world ''005930'' demo_state) = Inr (Some demo_record)
   \<and> driver (snd (collect_stock_data demo_world ''005930'' demo_state)) = Running
   \<and> Quit \<notin> set (calls (snd (collect_stock_data demo_world ''005930'' demo_state)))"
proof -
  have h: "fst (collect_stock_data demo_world ''005930'' demo_state) = Inr (Some demo_record)"
    by (rule demo_run)
  have "calls demo_state = []" by (simp add: demo_state_def new_collector_def)
  then show ?thesis using collect_keeps_session [OF h] h by auto
qed

text \<open>
  \<^bold>\<open>C1\<close>, as amended. Whenever \<^verbatim>\<open>collect_stock_data\<close> returns a record, the session is
  left open: the driver is running and no \<^verbatim>\<open>quit\<close> was issued during the call; a call
  of \<^verbatim>\<open>close_driver_if_needed\<close> in the state the call leaves then issues \<^verbatim>\<open>quit\<close>, and
  the driver is terminated when that \<^verbatim>\<open>quit\<close> succeeds. Whenever the folder creation or
  the driver set-up raises, no record is returned and, if a driver object exists,
  \<^verbatim>\<open>quit\<close> is the last call made; the driver is terminated when that \<^verbatim>\<open>quit\<close> succeeds.
\<close>

theorem session_release_paths:
  "(fst (collect_stock_data w code s) = Inr (Some r) \<longrightarrow>
      driver (snd (collect_stock_data w code s)) = Running
      \<and> (\<exists>t. calls (snd (collect_stock_data w code s)) = calls s @ t \<and> Quit \<notin> set t)
      \<and> calls (snd (close_driver_if_needed w (snd (collect_stock_data w code s))))
          = calls (snd (collect_stock_data w code s)) @ [Quit]
      \<and> (quit_result w = None \<longrightarrow>
           driver (snd (close_driver_if_needed w (snd (collect_stock_data w code s)))) = Terminated))
   \<and> (fst (seq (setup_stock_screenshot_folder w code) (\<lambda>_. setup_driver w) s) = Inl e \<longrightarrow>
      fst (collect_stock_data w code s) = Inr None
      \<and> (driver (snd (collect_stock_data w code s)) \<noteq> NoDriver \<longrightarrow>
           (\<exists>t. calls (snd (collect_stock_data w code s)) = calls s @ t @ [Quit] \<and> Quit \<notin> set t)
           \<and> (quit_result w = None \<longrightarrow> driver (snd (collect_stock_data w code s)) = Terminated)))"
proof (intro conjI impI)
  assume h: "fst (collect_stock_data w code s) = Inr (Some r)"
  show run: "driver (snd (collect_stock_data w code s)) = Running"
    and "\<exists>t. calls (snd (collect_stock_data w code s)) = calls s @ t \<and> Quit \<notin> set t"
    using h collect_keeps_session by blast+
  have d: "driver (snd (collect_stock_data w code s)) \<noteq> NoDriver" using run by simp
  show "calls (snd (close_driver_if_needed w (snd (collect_stock_data w code s))))
          = calls (snd (collect_stock_data w code s)) @ [Quit]"
    using close_driver_effect [OF d, of w] by (simp add: close_driver_if_needed_def)
  show "quit_result w = None \<Longrightarrow>
          driver (snd (close_driver_if_needed w (snd (collect_stock_data w code s)))) = Terminated"
    using close_driver_effect [OF d, of w] by (simp add: close_driver_if_needed_def)
next
  assume a: "fst (seq (setup_stock_screenshot_folder w code) (\<lambda>_. setup_driver w) s) = Inl e"
  obtain s1 where r: "reach_overview w code s = (Inl e, s1)"
    using a by (cases "reach_overview w code s")
      (auto simp: reach_overview_def seq_def split: prod.splits sum.splits)
  note c = collect_after_raise [OF r]
  show "fst (collect_stock_data w code s) = Inr None" using c by simp
  {
    assume d: "driver (snd (collect_stock_data w code s)) \<noteq> NoDriver"
    have d1: "driver s1 \<noteq> NoDriver"
    proof
      assume "driver s1 = NoDriver"
      then have "close_driver w s1 = (Inr (), s1)" by (simp add: close_driver_def)
      then show False using d c \<open>driver s1 = NoDriver\<close> by simp
    qed
    obtain t where t: "calls s1 = calls s @ t" "Quit \<notin> set t"
      using reach_overview_effect [OF r] by blast
    show "\<exists>t. calls (snd (collect_stock_data w code s)) = calls s @ t @ [Quit] \<and> Quit \<notin> set t"
      using close_driver_effect [OF d1, of w] c t by auto
    show "quit_result w = None \<Longrightarrow> driver (snd (collect_stock_data w code s)) = Terminated"
      using close_driver_effect [OF d1, of w] c by simp
  }
qed

theorem session_release_paths_witness:
  "fst (collect_stock_data demo_world ''005930'' demo_state) = Inr (Some demo_record)
   \<and> driver (snd (collect_stock_data demo_world ''005930'' demo_state)) = Running
   \<and> quit_result demo_world = None
   \<and> driver (snd (close_driver_if_needed demo_world
                    (snd (collect_stock_data demo_world ''005930'' demo_state)))) = Terminated
   \<and> fst (seq (setup_stock_screenshot_folder no_wait_world ''005930'') (\<lambda>_. setup_driver no_wait_world)
           demo_state) = Inl WebDriverException
   \<and> fst (collect_stock_data no_wait_world ''005930'' demo_state) = Inr None
   \<and> driver (snd (collect_stock_data no_wait_world ''005930'' demo_state)) = Terminated"
proof -
  have h: "fst (collect_stock_data demo_world ''005930'' demo_state) = Inr (Some demo_record)"
    by (rule demo_run)
  have f: "fst (seq (setup_stock_screenshot_folder no_wait_world ''005930'') (\<lambda>_. setup_driver no_wait_world)
           demo_state) = Inl WebDriverException"
    by (simp add: eval_defs no_wait_world_def)
  have q: "quit_result no_wait_world = None" by (simp add: no_wait_world_def demo_world_def)
  have q': "quit_result demo_world = None" by (simp add: demo_world_def)
  have d: "driver (snd (collect_stock_data no_wait_world ''005930'' demo_state)) \<noteq> NoDriver"
    by (simp add: eval_defs no_wait_world_def)
  from session_release_paths [of demo_world "''005930''" demo_state demo_record]
    session_release_paths [of no_wait_world "''005930''" demo_state _ WebDriverException]
    h f q q' d
  show ?thesis by simp
qed




text \<open>
  \<^bold>\<open>C4\<close>. For every state of the site, news extraction returns at most 20 items and
  flow extraction at most 10 rows, and each list is in the order of its source
  elements: the position numbers stored in the items increase strictly, every news
  item numbered \<open>k\<close> is the extraction of the \<open>k\<close>-th element of the news list, and every
  flow row numbered \<open>k\<close> is the extraction of the \<open>k\<close>-th table row after the header.
\<close>

theorem extraction_limits_and_order:
  "\<exists>ns rs. fst (get_news_announcements w code s) = Inr ns
     \<and> fst (get_investor_trends w code s) = Inr rs
     \<and> length ns \<le> 20 \<and> length rs \<le> 10
     \<and> sorted_wrt (<) (map n_index ns) \<and> sorted_wrt (<) (map f_index rs)
     \<and> (\<forall>n\<in>set ns. news_from_list (pages w (news_url code)) n)
     \<and> (\<forall>x\<in>set rs. flow_from_table (pages w (frgn_url code)) x)"
  using get_news_announcements_limits [of w code s] get_investor_trends_spec [of w code s]
  by blast

theorem extraction_limits_and_order_witness:
  "fst (get_news_announcements demo_world ''005930'' demo_ready) = Inr demo_news
   \<and> fst (get_investor_trends demo_world ''005930'' demo_ready) = Inr demo_flows
   \<and> map n_index demo_news = [1, 3] \<and> map f_index demo_flows = [1, 3]
   \<and> length demo_news \<le> 20 \<and> length demo_flows \<le> 10
   \<and> sorted_wrt (<) (map n_index demo_news) \<and> sorted_wrt (<) (map f_index demo_flows)
   \<and> list_all (news_from_list (pages demo_world (news_url ''005930''))) demo_news
   \<and> list_all (flow_from_table (pages demo_world (frgn_url ''005930''))) demo_flows"
proof -
  obtain ns rs where a: "fst (get_news_announcements demo_world ''005930'' demo_ready) = Inr ns"
    "fst (get_investor_trends demo_world ''005930'' demo_ready) = Inr rs"
    and b: "length ns \<le> 20" "length rs \<le> 10"
      "sorted_wrt (<) (map n_index ns)" "sorted_wrt (<) (map f_index rs)"
      "\<forall>n\<in>set ns. news_from_list (pages demo_world (news_url ''005930'')) n"
      "\<forall>x\<in>set rs. flow_from_table (pages demo_world (frgn_url ''005930'')) x"
    using extraction_limits_and_order [of demo_world "''005930''" demo_ready] by blast
  have ns: "ns = demo_news" using a(1) demo_news_run by simp
  have rs: "rs = demo_flows" using a(2) demo_flows_run by simp
  have idx: "map n_index demo_news = [1, 3]" "map f_index demo_flows = [1, 3]"
    by (simp_all add: demo_news_def demo_flows_def demo_record_def)
  show ?thesis
    using b demo_news_run demo_flows_run idx unfolding ns rs
    by (simp add: list_all_iff)
qed

text \<open>
  \<^bold>\<open>C7\<close>. Flow-row extraction keeps only well-formed rows. Every record returned comes
  from a table row with at least six cells, and its date and five buy/sell figures are
  the stripped texts of the first six cells of that row; a row with fewer than six
  cells yields no record and no exception: the loop goes on with the rows after it.
\<close>

theorem flow_rows_well_formed:
  "(\<forall>rs. fst (get_investor_trends w code s) = Inr rs \<longrightarrow>
      (\<forall>x\<in>set rs. flow_from_cells (pages w (frgn_url code)) x))
   \<and> (el_find row (TAG_NAME, ''td'') = Inr cells \<and> length cells < 6 \<longrightarrow>
        rows_loop ((i, row) # rest) = rows_loop rest)"
  using get_investor_trends_spec [of w code s] flow_from_table_cells rows_loop_skips_short_row
  by (metis sum.inject(2))

theorem flow_rows_well_formed_witness:
  "fst (get_investor_trends demo_world ''005930'' demo_ready) = Inr demo_flows
   \<and> map f_date demo_flows = [''2025.01.02'', ''2025.01.01'']
   \<and> list_all (flow_from_cells (pages demo_world (frgn_url ''005930''))) demo_flows
   \<and> el_find short_row (TAG_NAME, ''td'') = Inr [text_element ''note'', text_element ''-'']
   \<and> rows_loop [(1, short_row)] = rows_loop []"
proof -
  have c: "el_find short_row (TAG_NAME, ''td'') = Inr [text_element ''note'', text_element ''-'']"
    by (simp add: short_row_def table_row_def container_def)
  have d: "map f_date demo_flows = [''2025.01.02'', ''2025.01.01'']"
    by (simp add: demo_flows_def demo_record_def)
  from flow_rows_well_formed [of demo_world "''005930''" demo_ready short_row
      "[text_element ''note'', text_element ''-'']" 1 "[]"]
    demo_flows_run c d
  show ?thesis by (simp add: list_all_iff)
qed

text \<open>
  \<^bold>\<open>C3\<close>. The claim that basic-info extraction is field-independent fails: on a
  page where only the stock-name element is missing, while the code, the price and
  the two change elements are present, the mapping returned holds a single key, the
  stock name taken from the page title; code, price, change and change rate are lost.
\<close>

theorem basic_info_not_independent_counterexample:
  "pg_find nameless_page (CSS_SELECTOR, ''.wrap_company h2 a'') = Inr []
   \<and> pg_find nameless_page (CSS_SELECTOR, ''.wrap_company .description .code'') = Inr [text_element ''005930'']
   \<and> pg_find nameless_page (CSS_SELECTOR, ''.today .no_today em'') = Inr [text_element ''70,000'']
   \<and> fst (get_basic_info (demo_state\<lparr>current := nameless_page\<rparr>)) = Inr [''stock_name'' \<mapsto> ''Samsung'']"
  by (simp add: eval_defs)

text \<open>
  \<^bold>\<open>C3\<close>, as amended. Basic-info extraction runs its lookups in sequence inside one
  \<^verbatim>\<open>try\<close> block. When the lookup of the stock-name element fails, the mapping returned
  holds exactly one key, \<open>stock_name\<close>, filled from the page title (the text before the
  first colon) or with the placeholder. When the name, code and price elements are
  present and readable, as are the first two change elements if there are two, the
  name, code and price are returned, together with change and change rate when there
  are two change elements; the company-description block is the one independent
  lookup: whatever happens inside it, it only sets \<open>company_description\<close>.
\<close>

theorem basic_info_sequential:
  "(lookup_fails (current s) (CSS_SELECTOR, ''.wrap_company h2 a'') \<longrightarrow>
      fst (get_basic_info s) = Inr [''stock_name'' \<mapsto> title_name (pg_title (current s))])
   \<and> (pg_find (current s) (CSS_SELECTOR, ''.wrap_company h2 a'') = Inr (en # ens)
       \<and> el_text en = Inr n
       \<and> pg_find (current s) (CSS_SELECTOR, ''.wrap_company .description .code'') = Inr (ec # ecs)
       \<and> el_text ec = Inr c
       \<and> pg_find (current s) (CSS_SELECTOR, ''.today .no_today em'') = Inr (ep # eps)
       \<and> el_text ep = Inr p
       \<and> pg_find (current s) (CSS_SELECTOR, ''.today .no_exday em'') = Inr ces
       \<and> (2 \<le> length ces \<longrightarrow> el_text (ces ! 0) = Inr t0 \<and> el_text (ces ! 1) = Inr t1)
      \<longrightarrow> (\<exists>m. fst (get_basic_info s) = Inr m
           \<and> m ''stock_name'' = Some (strip n) \<and> m ''stock_code'' = Some (strip c)
           \<and> m ''current_price'' = Some (remove_commas (strip p))
           \<and> m ''price_change'' = (if 2 \<le> length ces then Some (remove_commas (strip t0)) else None)
           \<and> m ''change_rate'' = (if 2 \<le> length ces then Some (strip t1) else None)
           \<and> m ''company_description'' \<noteq> None))"
  using get_basic_info_name_missing [of s]
    get_basic_info_all_present [of s en ens n ec ecs c ep eps p ces t0 t1]
  by blast

theorem basic_info_sequential_witness:
  "lookup_fails nameless_page (CSS_SELECTOR, ''.wrap_company h2 a'')
   \<and> fst (get_basic_info (demo_state\<lparr>current := nameless_page\<rparr>)) = Inr [''stock_name'' \<mapsto> ''Samsung'']
   \<and> pg_find overview_page (CSS_SELECTOR, ''.wrap_company h2 a'') = Inr [text_element '' Samsung Electronics '']
   \<and> (\<exists>m. fst (get_basic_info (demo_state\<lparr>current := overview_page\<rparr>)) = Inr m
           \<and> m ''stock_name'' = Some ''Samsung Electronics'' \<and> m ''stock_code'' = Some ''005930''
           \<and> m ''current_price'' = Some ''70000''
           \<and> m ''price_change'' = Some ''1000''
           \<and> m ''change_rate'' = Some ''1.45%''
           \<and> m ''company_description'' = Some info_none)"
proof -
  have a: "lookup_fails nameless_page (CSS_SELECTOR, ''.wrap_company h2 a'')"
    by (simp add: lookup_fails_def nameless_page_def)
  have t: "title_name (pg_title nameless_page) = ''Samsung''"
    by (simp add: title_name_def eval_defs)
  have b: "pg_find overview_page (CSS_SELECTOR, ''.wrap_company h2 a'') = Inr [text_element '' Samsung Electronics '']"
    "pg_find overview_page (CSS_SELECTOR, ''.wrap_company .description .code'') = Inr [text_element ''005930'']"
    "pg_find overview_page (CSS_SELECTOR, ''.today .no_today em'') = Inr [text_element ''70,000'']"
    "pg_find overview_page (CSS_SELECTOR, ''.today .no_exday em'') = Inr [text_element ''1,000'', text_element ''1.45%'']"
    by (simp_all add: overview_page_def)
  have c: "el_text (text_element x) = Inr x" for x by (simp add: text_element_def)
  have d: "strip '' Samsung Electronics '' = ''Samsung Electronics''" "strip ''005930'' = ''005930''"
    "remove_commas (strip ''70,000'') = ''70000''" "remove_commas (strip ''1,000'') = ''1000''"
    "strip ''1.45%'' = ''1.45%''"
    by (simp_all add: strip_def is_space_simps remove_commas_def)
  have e: "fst (get_basic_info (demo_state\<lparr>current := overview_page\<rparr>)) = Inr m
           \<Longrightarrow> m ''company_description'' = Some info_none" for m
    by (auto simp: eval_defs)
  from basic_info_sequential [of "demo_state\<lparr>current := nameless_page\<rparr>"]
    basic_info_sequential [of "demo_state\<lparr>current := overview_page\<rparr>"
      "text_element '' Samsung Electronics ''" "[]" "'' Samsung Electronics ''"
      "text_element ''005930''" "[]" "''005930''" "text_element ''70,000''" "[]" "''70,000''"
      "[text_element ''1,000'', text_element ''1.45%'']" "''1,000''" "''1.45%''"]
    a t b c d e
  show ?thesis by auto
qed

text \<open>
  \<^bold>\<open>C5\<close>. The claim that the fallback capture still produces an image file at the
  target path fails when the fallback fails too: on a site where the CDP capture and
  the driver's own screenshot both raise, the news stage ends without a file at the
  path, after trying the CDP capture and then the screenshot there.
\<close>

theorem fallback_capture_may_fail_counterexample:
  "cdp_succeeds slow_world (news_capture_path slow_world ''005930'' demo_ready)
      (on_news_page slow_world ''005930'' demo_ready) = False
   \<and> calls (snd (get_news_announcements slow_world ''005930'' demo_ready))
      = [Get (news_url ''005930''), Cdp (news_capture_path slow_world ''005930'' demo_ready),
         SaveScreenshot (news_capture_path slow_world ''005930'' demo_ready)]
   \<and> fs (snd (get_news_announcements slow_world ''005930'' demo_ready))
        (news_capture_path slow_world ''005930'' demo_ready) = None
   \<and> fst (get_news_announcements slow_world ''005930'' demo_ready) = Inr []"
  by (simp add: eval_defs slow_world_def demo_ready_def cdp_succeeds_def news_capture_path_def
      on_news_page_def)

text \<open>
  \<^bold>\<open>C5\<close>, as amended. On the news page the full-page capture tries the CDP capture
  first; when that succeeds no other capture is made and the decoded image is at the
  target path; when it throws or reports failure, the driver's own screenshot is
  attempted next at the same path, and the image file is at that path whenever this
  screenshot itself succeeds. When the screenshot raises or reports failure too, the
  files are left as the failed CDP attempt left them: unchanged, or with an empty file
  at the target path when the attempt failed after opening it (\<open>cdp_opens_file\<close>); when
  the screenshot raises, the stage returns the empty list. In every case the stage
  returns a list: no exception reaches the orchestrator.
\<close>

theorem full_page_capture_fallback:
  assumes "get_result w (news_url code) = None"
    and "pg_script (pages w (news_url code)) ScrollToTop = Inr v"
    and "current_stock_screenshot_dir s = Some dir"
  shows "(\<exists>ns. fst (get_news_announcements w code s) = Inr ns)
    \<and> (cdp_succeeds w (news_capture_path w code s) (on_news_page w code s) \<longrightarrow>
         calls (snd (get_news_announcements w code s))
           = calls s @ [Get (news_url code), Cdp (news_capture_path w code s)]
         \<and> (\<exists>d bytes. pg_cdp_capture (pages w (news_url code)) = Inr (Some d)
               \<and> b64decode w d = Inr bytes
               \<and> fs (snd (get_news_announcements w code s)) (news_capture_path w code s)
                   = Some bytes))
    \<and> (\<not> cdp_succeeds w (news_capture_path w code s) (on_news_page w code s) \<longrightarrow>
         calls (snd (get_news_announcements w code s))
           = calls s @ [Get (news_url code), Cdp (news_capture_path w code s),
                        SaveScreenshot (news_capture_path w code s)]
         \<and> (pg_save_screenshot (pages w (news_url code)) = Inr (Some png) \<longrightarrow>
              fs (snd (get_news_announcements w code s)) (news_capture_path w code s) = Some png)
         \<and> (pg_save_screenshot (pages w (news_url code)) = Inl e \<longrightarrow>
              fst (get_news_announcements w code s) = Inr []
              \<and> fs (snd (get_news_announcements w code s))
                  = (if cdp_opens_file w (news_capture_path w code s) (on_news_page w code s)
                     then (fs s)(news_capture_path w code s \<mapsto> []) else fs s))
         \<and> (pg_save_screenshot (pages w (news_url code)) = Inr None \<longrightarrow>
              fs (snd (get_news_announcements w code s))
                = (if cdp_opens_file w (news_capture_path w code s) (on_news_page w code s)
                   then (fs s)(news_capture_path w code s \<mapsto> []) else fs s)))"
proof -
  let ?sa = "s\<lparr>calls := calls s @ [Get (news_url code)], current := pages w (news_url code)\<rparr>"
  let ?p = "news_capture_path w code s"
  let ?left = "if cdp_opens_file w ?p (on_news_page w code s) then (fs s)(?p \<mapsto> []) else fs s"
  have st: "snd (get_news_announcements w code s) = snd (capture_full_page w code ''_news_cdp_full_'' ?sa)"
    using assms(1) by (rule get_news_announcements_state)
  have a1: "pg_script (current ?sa) ScrollToTop = Inr v" using assms(2) by simp
  have a2: "current_stock_screenshot_dir ?sa = Some dir" using assms(3) by simp
  have a3: "?p = join_path dir (code @ ''_news_cdp_full_'' @ strftime w ''%Y%m%d_%H%M%S'' (tick ?sa)
            @ ''.'' @ screenshot_format (config ?sa))"
    using assms(3) by (simp add: news_capture_path_def)
  have s1: "?sa\<lparr>tick := Suc (tick ?sa)\<rparr> = on_news_page w code s"
    by (simp add: on_news_page_def)
  have c1: "current ?sa = pages w (news_url code)" by simp
  have f1: "fs (on_news_page w code s) = fs s"
    and c2: "current (on_news_page w code s) = pages w (news_url code)"
    by (simp_all add: on_news_page_def)
  note tr = capture_full_page_trace [OF a1 a2 a3, unfolded s1]
  note fl = capture_full_page_files [OF a1 a2 a3, unfolded s1 c1]
  have r: "\<exists>ns. fst (get_news_announcements w code s) = Inr ns"
    using no_raise_get_news_announcements [of w code] by (simp add: no_raise_def)
  have ok: "cdp_succeeds w ?p (on_news_page w code s) \<longrightarrow>
         calls (snd (get_news_announcements w code s)) = calls s @ [Get (news_url code), Cdp ?p]
         \<and> (\<exists>d bytes. pg_cdp_capture (pages w (news_url code)) = Inr (Some d)
               \<and> b64decode w d = Inr bytes
               \<and> fs (snd (get_news_announcements w code s)) ?p = Some bytes)"
  proof
    assume y: "cdp_succeeds w ?p (on_news_page w code s)"
    have "calls (snd (get_news_announcements w code s)) = calls s @ [Get (news_url code), Cdp ?p]"
      using tr(1) [OF y] st by simp
    moreover have "\<exists>d bytes. pg_cdp_capture (pages w (news_url code)) = Inr (Some d)
               \<and> b64decode w d = Inr bytes
               \<and> fs (snd (get_news_announcements w code s)) ?p = Some bytes"
      using cdp_success_fs [OF y] fl(1) [OF y] st c2 by simp
    ultimately show "calls (snd (get_news_announcements w code s)) = calls s @ [Get (news_url code), Cdp ?p]
         \<and> (\<exists>d bytes. pg_cdp_capture (pages w (news_url code)) = Inr (Some d)
               \<and> b64decode w d = Inr bytes
               \<and> fs (snd (get_news_announcements w code s)) ?p = Some bytes)" by simp
  qed
  have no: "\<not> cdp_succeeds w ?p (on_news_page w code s) \<longrightarrow>
         calls (snd (get_news_announcements w code s))
           = calls s @ [Get (news_url code), Cdp ?p, SaveScreenshot ?p]
         \<and> (pg_save_screenshot (pages w (news_url code)) = Inr (Some png) \<longrightarrow>
              fs (snd (get_news_announcements w code s)) ?p = Some png)
         \<and> (pg_save_screenshot (pages w (news_url code)) = Inl e \<longrightarrow>
              fst (get_news_announcements w code s) = Inr []
              \<and> fs (snd (get_news_announcements w code s)) = ?left)
         \<and> (pg_save_screenshot (pages w (news_url code)) = Inr None \<longrightarrow>
              fs (snd (get_news_announcements w code s)) = ?left)"
  proof (intro impI conjI)
    assume n: "\<not> cdp_succeeds w ?p (on_news_page w code s)"
    note left = cdp_failed_fs [OF n, unfolded f1]
    show "calls (snd (get_news_announcements w code s))
           = calls s @ [Get (news_url code), Cdp ?p, SaveScreenshot ?p]"
      using tr(2) [OF n] st by simp
    show "pg_save_screenshot (pages w (news_url code)) = Inr (Some png) \<Longrightarrow>
            fs (snd (get_news_announcements w code s)) ?p = Some png"
      using tr(3) [OF n, where png = png] st by simp
    {
      assume x: "pg_save_screenshot (pages w (news_url code)) = Inl e"
      note f = fl(2) [OF n x]
      show "fst (get_news_announcements w code s) = Inr []"
        using get_news_announcements_capture_raises [OF assms(1)] f by blast
      show "fs (snd (get_news_announcements w code s)) = ?left"
        using f st left by simp
    }
    {
      assume x: "pg_save_screenshot (pages w (news_url code)) = Inr None"
      show "fs (snd (get_news_announcements w code s)) = ?left"
        using fl(3) [OF n x] st left by simp
    }
  qed
  show ?thesis using r ok no by blast
qed

theorem full_page_capture_fallback_witness:
  "get_result demo_world (news_url ''005930'') = None
   \<and> pg_script (pages demo_world (news_url ''005930'')) ScrollToTop = Inr (JNum 3000)
   \<and> current_stock_screenshot_dir demo_ready = Some ''screenshots/005930_T''
   \<and> news_capture_path demo_world ''005930'' demo_ready
       = ''screenshots/005930_T/005930_news_cdp_full_T.png''
   \<and> cdp_succeeds demo_world (news_capture_path demo_world ''005930'' demo_ready)
       (on_news_page demo_world ''005930'' demo_ready) = False
   \<and> pg_save_screenshot (pages demo_world (news_url ''005930'')) = Inr (Some ''PNG'')
   \<and> calls (snd (get_news_announcements demo_world ''005930'' demo_ready))
       = [Get (news_url ''005930''), Cdp ''screenshots/005930_T/005930_news_cdp_full_T.png'',
          SaveScreenshot ''screenshots/005930_T/005930_news_cdp_full_T.png'']
   \<and> fs (snd (get_news_announcements demo_world ''005930'' demo_ready))
        ''screenshots/005930_T/005930_news_cdp_full_T.png'' = Some ''PNG''
   \<and> cdp_succeeds torn_world ''screenshots/005930_T/005930_news_cdp_full_T.png''
       (on_news_page torn_world ''005930'' demo_ready) = False
   \<and> cdp_opens_file torn_world ''screenshots/005930_T/005930_news_cdp_full_T.png''
       (on_news_page torn_world ''005930'' demo_ready)
   \<and> pg_save_screenshot (pages torn_world (news_url ''005930'')) = Inl WebDriverException
   \<and> fst (get_news_announcements torn_world ''005930'' demo_ready) = Inr []
   \<and> fs (snd (get_news_announcements torn_world ''005930'' demo_ready))
        ''screenshots/005930_T/005930_news_cdp_full_T.png'' = Some []
   \<and> cdp_succeeds cdp_world ''screenshots/005930_T/005930_news_cdp_full_T.png''
       (on_news_page cdp_world ''005930'' demo_ready)
   \<and> calls (snd (get_news_announcements cdp_world ''005930'' demo_ready))
       = [Get (news_url ''005930''), Cdp ''screenshots/005930_T/005930_news_cdp_full_T.png'']
   \<and> fs (snd (get_news_announcements cdp_world ''005930'' demo_ready))
        ''screenshots/005930_T/005930_news_cdp_full_T.png'' = Some ''PNG64''"
proof -
  have a: "get_result demo_world (news_url ''005930'') = None"
    by (simp add: demo_world_def)
  have b: "pg_script (pages demo_world (news_url ''005930'')) ScrollToTop = Inr (JNum 3000)"
    by (simp add: eval_defs)
  have c: "current_stock_screenshot_dir demo_ready = Some ''screenshots/005930_T''"
    by (simp add: demo_ready_def)
  have d: "news_capture_path demo_world ''005930'' demo_ready
       = ''screenshots/005930_T/005930_news_cdp_full_T.png''"
    by (simp add: news_capture_path_def eval_defs demo_ready_def)
  have e: "\<not> cdp_succeeds demo_world (news_capture_path demo_world ''005930'' demo_ready)
       (on_news_page demo_world ''005930'' demo_ready)"
    by (simp add: cdp_succeeds_def news_capture_path_def on_news_page_def eval_defs demo_ready_def)
  have f: "pg_save_screenshot (pages demo_world (news_url ''005930'')) = Inr (Some ''PNG'')"
    by (simp add: eval_defs)
  have g: "calls demo_ready = []" by (simp add: demo_ready_def demo_state_def new_collector_def)
  have g': "fs demo_ready = Map.empty" by (simp add: demo_ready_def demo_state_def new_collector_def)
  have ta: "get_result torn_world (news_url ''005930'') = None"
    by (simp add: torn_world_def demo_world_def)
  have tb: "pg_script (pages torn_world (news_url ''005930'')) ScrollToTop = Inr JNull"
    by (simp add: torn_world_def blank_page_def)
  have td: "news_capture_path torn_world ''005930'' demo_ready
       = ''screenshots/005930_T/005930_news_cdp_full_T.png''"
    by (simp add: news_capture_path_def eval_defs demo_ready_def torn_world_def)
  have te: "\<not> cdp_succeeds torn_world ''screenshots/005930_T/005930_news_cdp_full_T.png''
       (on_news_page torn_world ''005930'' demo_ready)"
    by (simp add: cdp_succeeds_def on_news_page_def eval_defs demo_ready_def torn_world_def)
  have tf: "pg_save_screenshot (pages torn_world (news_url ''005930'')) = Inl WebDriverException"
    by (simp add: torn_world_def blank_page_def)
  have tg: "cdp_opens_file torn_world ''screenshots/005930_T/005930_news_cdp_full_T.png''
       (on_news_page torn_world ''005930'' demo_ready)"
    by (simp add: cdp_opens_file_def on_news_page_def torn_world_def demo_world_def)
  have ca: "get_result cdp_world (news_url ''005930'') = None"
    by (simp add: cdp_world_def demo_world_def)
  have cb: "pg_script (pages cdp_world (news_url ''005930'')) ScrollToTop = Inr JNull"
    by (simp add: cdp_world_def blank_page_def)
  have cd: "news_capture_path cdp_world ''005930'' demo_ready
       = ''screenshots/005930_T/005930_news_cdp_full_T.png''"
    by (simp add: news_capture_path_def eval_defs demo_ready_def cdp_world_def)
  have ce: "cdp_succeeds cdp_world ''screenshots/005930_T/005930_news_cdp_full_T.png''
       (on_news_page cdp_world ''005930'' demo_ready)"
    by (simp add: cdp_succeeds_def on_news_page_def eval_defs demo_ready_def cdp_world_def)
  have cf: "pg_cdp_capture (pages cdp_world (news_url ''005930'')) = Inr (Some ''PNG64'')"
    and cg: "b64decode cdp_world = Inr"
    by (simp_all add: cdp_world_def demo_world_def)
  note demo = full_page_capture_fallback [OF a b c, of "''PNG''", unfolded d]
  note torn = full_page_capture_fallback [OF ta tb c, of _ WebDriverException, unfolded td]
  note cdp = full_page_capture_fallback [OF ca cb c, unfolded cd]
  have 1: "calls (snd (get_news_announcements demo_world ''005930'' demo_ready))
       = [Get (news_url ''005930''), Cdp ''screenshots/005930_T/005930_news_cdp_full_T.png'',
          SaveScreenshot ''screenshots/005930_T/005930_news_cdp_full_T.png'']"
    and 2: "fs (snd (get_news_announcements demo_world ''005930'' demo_ready))
        ''screenshots/005930_T/005930_news_cdp_full_T.png'' = Some ''PNG''"
    using demo e [unfolded d] f g by simp_all
  have 3: "fst (get_news_announcements torn_world ''005930'' demo_ready) = Inr []"
    and 4: "fs (snd (get_news_announcements torn_world ''005930'' demo_ready))
        ''screenshots/005930_T/005930_news_cdp_full_T.png'' = Some []"
    using torn te tf tg g' by simp_all
  have 5: "calls (snd (get_news_announcements cdp_world ''005930'' demo_ready))
       = [Get (news_url ''005930''), Cdp ''screenshots/005930_T/005930_news_cdp_full_T.png'']"
    and 6: "fs (snd (get_news_announcements cdp_world ''005930'' demo_ready))
        ''screenshots/005930_T/005930_news_cdp_full_T.png'' = Some ''PNG64''"
    using cdp ce cf cg g by auto
  show ?thesis
    using a b c d e f 1 2 3 4 5 6 te tf tg ce by simp
qed



end
